theory Spec2Isabelle
  imports Main "HOL-Library.Word"
begin

section \<open>Data model\<close>

text \<open>
  Modelled from the spec: the declarations of package \<open>types\<close> (\<open>Money\<close>, \<open>Phone\<close>,
  \<open>PaymentCategory\<close>, \<open>PaymentStatus\<close>, \<open>Account\<close>, \<open>Payment\<close>, \<open>Favorite\<close>) are
  imported by \<open>service.go\<close> but are not part of the sources at hand. The spec gives
  Account as \<open>{ID: int64, Phone: string, Balance: integer amount}\<close>, Payment as
  \<open>{ID: string, AccountID: int64, Amount, Category: string, Status}\<close> with the two
  statuses the service uses, and Favorite as \<open>{ID, AccountID, Name, Amount, Category}\<close>.
  \<open>Money\<close> is taken as a signed 64-bit integer: \<open>service.go\<close> converts it to and from
  \<open>int64\<close> (\<open>int64(account.Balance)\<close>, \<open>types.Money(balance)\<close>), and Go's integer
  arithmetic wraps around.
\<close>

type_synonym int64 = "64 word"
type_synonym Money = int64
type_synonym Phone = string
type_synonym PaymentCategory = string

datatype PaymentStatus = PaymentStatusInProgress | PaymentStatusFail

record Account =
  ID :: int64
  Phone :: Phone
  Balance :: Money

record Payment =
  PaymentID :: string
  AccountID :: int64
  Amount :: Money
  Category :: PaymentCategory
  Status :: PaymentStatus

record Favorite =
  FavoriteID :: string
  FavAccountID :: int64
  Name :: string
  FavAmount :: Money
  FavCategory :: PaymentCategory

text \<open>
  The sentinel errors of \<open>service.go\<close>, the error \<open>os.Open\<close> and \<open>os.Create\<close> give
  for a path they cannot open, and the error of a \<open>file.Write\<close> that cannot write all its
  bytes.
\<close>

datatype error =
    ErrPhoneRegistered
  | ErrAmountMustBePositive
  | ErrAccountNotFound
  | ErrNotEnoughBalance
  | ErrPaymentNotFound
  | ErrCannotRegisterAccount
  | ErrCannotDepositAccount
  | ErrFavoriteNotFound
  | PathError
  | WriteError

text \<open>
  The service holds slices of pointers. Every pointer in a slice is to an object allocated
  for that slot alone, so a slice of pointers is a list of records, and a pointer into it
  (\<open>*types.Account\<close>, \<open>*types.Payment\<close>, \<open>*types.Favorite\<close>) is the position of its
  slot. Writing through the pointer is a list update at that position.
\<close>

record Service =
  nextAccountID :: int64
  accounts :: "Account list"
  payments :: "Payment list"
  favorites :: "Favorite list"

text \<open>The zero value \<open>Service{}\<close>.\<close>

definition empty_Service :: Service where
  "empty_Service = \<lparr>nextAccountID = 0, accounts = [], payments = [], favorites = []\<rparr>"

section \<open>Lookups\<close>

text \<open>The \<open>for ... range\<close> scans: the first element whose identifier matches.\<close>

fun account_index :: "int64 \<Rightarrow> Account list \<Rightarrow> nat option" where
  "account_index accountID [] = None"
| "account_index accountID (account # rest) =
     (if ID account = accountID then Some 0
      else map_option Suc (account_index accountID rest))"

fun payment_index :: "string \<Rightarrow> Payment list \<Rightarrow> nat option" where
  "payment_index paymentID [] = None"
| "payment_index paymentID (payment # rest) =
     (if PaymentID payment = paymentID then Some 0
      else map_option Suc (payment_index paymentID rest))"

fun favorite_index :: "string \<Rightarrow> Favorite list \<Rightarrow> nat option" where
  "favorite_index favoriteID [] = None"
| "favorite_index favoriteID (favorite # rest) =
     (if FavoriteID favorite = favoriteID then Some 0
      else map_option Suc (favorite_index favoriteID rest))"

definition FindAccountByID :: "int64 \<Rightarrow> Service \<Rightarrow> error + nat" where
  "FindAccountByID accountID s =
     (case account_index accountID (accounts s) of
        Some i \<Rightarrow> Inr i
      | None \<Rightarrow> Inl ErrAccountNotFound)"

definition FindPaymentByID :: "string \<Rightarrow> Service \<Rightarrow> error + nat" where
  "FindPaymentByID paymentID s =
     (case payment_index paymentID (payments s) of
        Some j \<Rightarrow> Inr j
      | None \<Rightarrow> Inl ErrPaymentNotFound)"

definition FindFavoriteByID :: "string \<Rightarrow> Service \<Rightarrow> error + nat" where
  "FindFavoriteByID favoriteID s =
     (case favorite_index favoriteID (favorites s) of
        Some k \<Rightarrow> Inr k
      | None \<Rightarrow> Inl ErrFavoriteNotFound)"

section \<open>Account operations\<close>

fun phone_registered :: "Phone \<Rightarrow> Account list \<Rightarrow> bool" where
  "phone_registered phone [] = False"
| "phone_registered phone (account # rest) =
     (if Phone account = phone then True else phone_registered phone rest)"

definition RegisterAccount :: "Phone \<Rightarrow> Service \<Rightarrow> (error + nat) \<times> Service" where
  "RegisterAccount phone s =
     (if phone_registered phone (accounts s) then (Inl ErrPhoneRegistered, s)
      else
        let s1 = s\<lparr>nextAccountID := nextAccountID s + 1\<rparr>;
            account = \<lparr>ID = nextAccountID s1, Phone = phone, Balance = 0\<rparr>
        in (Inr (length (accounts s1)), s1\<lparr>accounts := accounts s1 @ [account]\<rparr>))"

definition Deposit :: "int64 \<Rightarrow> Money \<Rightarrow> Service \<Rightarrow> error option \<times> Service" where
  "Deposit accountID amount s =
     (if amount \<le>s 0 then (Some ErrAmountMustBePositive, s)
      else case account_index accountID (accounts s) of
        None \<Rightarrow> (Some ErrAccountNotFound, s)
      | Some i \<Rightarrow>
          let account = accounts s ! i
          in (None, s\<lparr>accounts := (accounts s)[i := account\<lparr>Balance := Balance account + amount\<rparr>]\<rparr>))"

definition AddAccountWithBalance :: "Phone \<Rightarrow> Money \<Rightarrow> Service \<Rightarrow> (error + nat) \<times> Service" where
  "AddAccountWithBalance phone balance s =
     (case RegisterAccount phone s of
        (Inl err, s1) \<Rightarrow> (Inl ErrCannotRegisterAccount, s1)
      | (Inr account, s1) \<Rightarrow>
          (case Deposit (ID (accounts s1 ! account)) balance s1 of
             (Some err, s2) \<Rightarrow> (Inl ErrCannotDepositAccount, s2)
           | (None, s2) \<Rightarrow> (Inr account, s2)))"

section \<open>Payment operations\<close>

text \<open>
  \<open>uuid.New().String()\<close> draws a fresh identifier from outside the program; the
  operations that call it take the identifier drawn as the argument \<open>uuid\<close>.
\<close>

definition Pay :: "int64 \<Rightarrow> Money \<Rightarrow> PaymentCategory \<Rightarrow> string \<Rightarrow> Service \<Rightarrow> (error + nat) \<times> Service" where
  "Pay accountID amount category uuid s =
     (if amount \<le>s 0 then (Inl ErrAmountMustBePositive, s)
      else case FindAccountByID accountID s of
        Inl err \<Rightarrow> (Inl err, s)
      | Inr i \<Rightarrow>
          let account = accounts s ! i
          in if Balance account <s amount then (Inl ErrNotEnoughBalance, s)
             else
               let s1 = s\<lparr>accounts := (accounts s)[i := account\<lparr>Balance := Balance account - amount\<rparr>]\<rparr>;
                   payment = \<lparr>PaymentID = uuid, AccountID = accountID, Amount = amount,
                              Category = category, Status = PaymentStatusInProgress\<rparr>
               in (Inr (length (payments s1)), s1\<lparr>payments := payments s1 @ [payment]\<rparr>))"

definition Reject :: "string \<Rightarrow> Service \<Rightarrow> error option \<times> Service" where
  "Reject paymentID s =
     (case FindPaymentByID paymentID s of
        Inl err \<Rightarrow> (Some err, s)
      | Inr j \<Rightarrow>
          let payment = payments s ! j
          in (case FindAccountByID (AccountID payment) s of
                Inl er \<Rightarrow> (Some er, s)
              | Inr i \<Rightarrow>
                  let account = accounts s ! i;
                      s1 = s\<lparr>payments := (payments s)[j := payment\<lparr>Status := PaymentStatusFail\<rparr>]\<rparr>
                  in (None, s1\<lparr>accounts := (accounts s1)[i := account\<lparr>Balance := Balance account + Amount payment\<rparr>]\<rparr>)))"

definition Repeat :: "string \<Rightarrow> string \<Rightarrow> Service \<Rightarrow> (error + nat) \<times> Service" where
  "Repeat paymentID uuid s =
     (case FindPaymentByID paymentID s of
        Inl err \<Rightarrow> (Inl err, s)
      | Inr j \<Rightarrow>
          let targetPayment = payments s ! j
          in (case Pay (AccountID targetPayment) (Amount targetPayment) (Category targetPayment) uuid s of
                (Inl err, s1) \<Rightarrow> (Inl err, s1)
              | (Inr newPayment, s1) \<Rightarrow> (Inr newPayment, s1)))"

section \<open>Favorites\<close>

definition FavoritePayment :: "string \<Rightarrow> string \<Rightarrow> string \<Rightarrow> Service \<Rightarrow> (error + nat) \<times> Service" where
  "FavoritePayment paymentID name uuid s =
     (case FindPaymentByID paymentID s of
        Inl err \<Rightarrow> (Inl err, s)
      | Inr j \<Rightarrow>
          let payment = payments s ! j;
              favorite = \<lparr>FavoriteID = uuid, FavAccountID = AccountID payment, Name = name,
                          FavAmount = Amount payment, FavCategory = Category payment\<rparr>
          in (Inr (length (favorites s)), s\<lparr>favorites := favorites s @ [favorite]\<rparr>))"

definition PayFromFavorite :: "string \<Rightarrow> string \<Rightarrow> Service \<Rightarrow> (error + nat) \<times> Service" where
  "PayFromFavorite favoriteID uuid s =
     (case FindFavoriteByID favoriteID s of
        Inl err \<Rightarrow> (Inl err, s)
      | Inr k \<Rightarrow>
          let favorite = favorites s ! k
          in (case Pay (FavAccountID favorite) (FavAmount favorite) (FavCategory favorite) uuid s of
                (Inl err, s1) \<Rightarrow> (Inl err, s1)
              | (Inr payment, s1) \<Rightarrow> (Inr payment, s1)))"

section \<open>Library functions used by the persistence code\<close>

text \<open>
  \<open>strconv.FormatInt(i, 10)\<close>: the decimal digits of the magnitude, most significant
  first, after a minus sign when \<open>i\<close> is negative. The magnitude is taken as Go takes
  it, in \<open>uint64\<close> (\<open>u = uint64(i); if neg { u = -u }\<close>).
\<close>

fun formatBits :: "nat \<Rightarrow> string" where
  "formatBits u =
     (if u < 10 then [char_of (48 + u)]
      else formatBits (u div 10) @ [char_of (48 + u mod 10)])"

definition FormatInt :: "int64 \<Rightarrow> string" where
  "FormatInt i = (if i <s 0 then CHR ''-'' # formatBits (unat (- i)) else formatBits (unat i))"

text \<open>
  \<open>strconv.ParseUint(s, 10, 64)\<close> and \<open>strconv.ParseInt(s, 10, 64)\<close>. A syntax error
  gives the value 0; a range error gives the largest magnitude of the sign and is raised
  at the first digit that overflows, before the rest of the string is looked at.
\<close>

datatype NumError = ErrSyntax | ErrRange

fun ParseUint_loop :: "string \<Rightarrow> 64 word \<Rightarrow> 64 word \<times> NumError option" where
  "ParseUint_loop [] n = (n, None)"
| "ParseUint_loop (c # cs) n =
     (if \<not> (48 \<le> (of_char c :: nat) \<and> (of_char c :: nat) \<le> 57) then (0, Some ErrSyntax)
      else
        let d = of_char c - 48
        in if 1844674407370955162 \<le> n then (- 1, Some ErrRange)
           else
             let n' = n * 10; n1 = n' + d
             in if n1 < n' then (- 1, Some ErrRange)
                else ParseUint_loop cs n1)"

definition ParseUint :: "string \<Rightarrow> 64 word \<times> NumError option" where
  "ParseUint s = (if s = [] then (0, Some ErrSyntax) else ParseUint_loop s 0)"

definition ParseInt :: "string \<Rightarrow> int64 \<times> NumError option" where
  "ParseInt s0 =
     (if s0 = [] then (0, Some ErrSyntax)
      else
        let neg = (hd s0 = CHR ''-'');
            s = (if hd s0 = CHR ''+'' \<or> hd s0 = CHR ''-'' then tl s0 else s0);
            (un, err) = ParseUint s
        in if err = Some ErrSyntax then (0, err)
           else if \<not> neg \<and> 9223372036854775808 \<le> un then (9223372036854775807, Some ErrRange)
           else if neg \<and> 9223372036854775808 < un then (- 9223372036854775808, Some ErrRange)
           else (if neg then - un else un, None))"

text \<open>\<open>strings.Split(s, sep)\<close> for a separator of one byte.\<close>

fun Split :: "string \<Rightarrow> char \<Rightarrow> string list" where
  "Split [] sep = [[]]"
| "Split (c # cs) sep =
     (if c = sep then [] # Split cs sep
      else (case Split cs sep of
              [] \<Rightarrow> [[c]]
            | x # xs \<Rightarrow> (c # x) # xs))"

section \<open>Persistence\<close>

text \<open>
  The file system is a map from paths to contents. \<open>os.Open\<close> of a path that is not
  there fails, and reading an open file succeeds. Whether \<open>os.Create\<close> can create the file,
  and how many bytes the file can take before a \<open>file.Write\<close> falls short, is decided
  outside the program: \<open>ExportToFile\<close> takes both as the arguments \<open>created\<close> and
  \<open>room\<close>.
\<close>

type_synonym FileSystem = "string \<rightharpoonup> string"

text \<open>
  The body of the export loop: one \<open>file.Write\<close> per account, appending to the file. A
  write that fits in the room left succeeds. One that does not writes the bytes that fit
  and returns its error, which ends the loop: \<open>return err\<close>.
\<close>

fun ExportToFile_loop :: "Account list \<Rightarrow> nat \<Rightarrow> string \<Rightarrow> error option \<times> string" where
  "ExportToFile_loop [] room file = (None, file)"
| "ExportToFile_loop (account # rest) room file =
     (let ID' = FormatInt (ID account) @ '';'';
          phone = Phone account @ '';'';
          balance = FormatInt (Balance account);
          bytes = ID' @ phone @ balance @ ''|''
      in if length bytes \<le> room
         then ExportToFile_loop rest (room - length bytes) (file @ bytes)
         else (Some WriteError, file @ take room bytes))"

text \<open>
  \<open>os.Create\<close> either fails, and its error is returned with the file system as it was, or
  gives the file at the path, empty. The error of closing the file is logged, not returned.
\<close>

definition ExportToFile :: "string \<Rightarrow> bool \<Rightarrow> nat \<Rightarrow> Service \<Rightarrow> FileSystem \<Rightarrow> error option \<times> FileSystem" where
  "ExportToFile path created room s fs =
     (if \<not> created then (Some PathError, fs)
      else
        let (err, file) = ExportToFile_loop (accounts s) room []
        in (err, fs(path \<mapsto> file)))"

text \<open>The read loop: four bytes at a time until \<open>io.EOF\<close>.\<close>

function ImportFromFile_read :: "string \<Rightarrow> string \<Rightarrow> string" where
  "ImportFromFile_read file content =
     (if file = [] then content
      else ImportFromFile_read (drop 4 file) (content @ take 4 file))"
  by pat_completeness auto
termination
  by (relation "measure (\<lambda>(file, content). length file)") auto

text \<open>
  A call of \<open>ImportFromFile\<close> either returns its \<open>error\<close> (\<open>None\<close> is \<open>nil\<close>) or
  panics on \<open>item[2]\<close> with an index out of range. The accounts appended before a panic
  stay in the slice.
\<close>

datatype outcome = Return "error option" | Panic

fun ImportFromFile_lines :: "string list \<Rightarrow> error option \<Rightarrow> Account list \<Rightarrow> outcome \<times> Account list" where
  "ImportFromFile_lines [] err accs = (Return err, accs)"
| "ImportFromFile_lines (line # rest) err accs =
     (if length line \<le> 0 then (Return err, accs)
      else
        let item = Split line CHR '';''
        in if length item \<le> 2 then (Panic, accs)
           else ImportFromFile_lines rest err
                  (accs @ [\<lparr>ID = fst (ParseInt (item ! 0)), Phone = item ! 1,
                            Balance = fst (ParseInt (item ! 2))\<rparr>]))"

definition ImportFromFile :: "string \<Rightarrow> Service \<Rightarrow> FileSystem \<Rightarrow> outcome \<times> Service" where
  "ImportFromFile path s fs =
     (case fs path of
        None \<Rightarrow> (Return (Some PathError), s)
      | Some file \<Rightarrow>
          let err = None;
              content = ImportFromFile_read file [];
              (r, accs) = ImportFromFile_lines (Split content CHR ''|'') err (accounts s)
          in (r, s\<lparr>accounts := accs\<rparr>))"

text \<open>The account the loop body of \<open>ImportFromFile\<close> builds from one record.\<close>

definition account_of_line :: "string \<Rightarrow> Account" where
  "account_of_line line =
     (let item = Split line CHR '';''
      in \<lparr>ID = fst (ParseInt (item ! 0)), Phone = item ! 1, Balance = fst (ParseInt (item ! 2))\<rparr>)"

text \<open>The record \<open>ExportToFile\<close> writes for one account, with its closing delimiter.\<close>

definition record_of_account :: "Account \<Rightarrow> string" where
  "record_of_account account =
     FormatInt (ID account) @ '';'' @ Phone account @ '';'' @ FormatInt (Balance account) @ ''|''"

section \<open>Runs of the service\<close>

text \<open>A caller that registers a list of phones one after the other.\<close>

fun register_all :: "Phone list \<Rightarrow> Service \<Rightarrow> Service" where
  "register_all [] s = s"
| "register_all (phone # rest) s = register_all rest (snd (RegisterAccount phone s))"

text \<open>
  The operations a caller can invoke, with their arguments, and the effect of one call on
  the service and the file system.
\<close>

datatype operation =
    OpRegisterAccount Phone
  | OpDeposit int64 Money
  | OpPay int64 Money PaymentCategory string
  | OpReject string
  | OpRepeat string string
  | OpFavoritePayment string string string
  | OpPayFromFavorite string string
  | OpAddAccountWithBalance Phone Money
  | OpExportToFile string bool nat
  | OpImportFromFile string

fun exec :: "operation \<Rightarrow> Service \<times> FileSystem \<Rightarrow> Service \<times> FileSystem" where
  "exec (OpRegisterAccount phone) (s, fs) = (snd (RegisterAccount phone s), fs)"
| "exec (OpDeposit accountID amount) (s, fs) = (snd (Deposit accountID amount s), fs)"
| "exec (OpPay accountID amount category uuid) (s, fs) = (snd (Pay accountID amount category uuid s), fs)"
| "exec (OpReject paymentID) (s, fs) = (snd (Reject paymentID s), fs)"
| "exec (OpRepeat paymentID uuid) (s, fs) = (snd (Repeat paymentID uuid s), fs)"
| "exec (OpFavoritePayment paymentID name uuid) (s, fs) = (snd (FavoritePayment paymentID name uuid s), fs)"
| "exec (OpPayFromFavorite favoriteID uuid) (s, fs) = (snd (PayFromFavorite favoriteID uuid s), fs)"
| "exec (OpAddAccountWithBalance phone balance) (s, fs) = (snd (AddAccountWithBalance phone balance s), fs)"
| "exec (OpExportToFile path created room) (s, fs) = (s, snd (ExportToFile path created room s fs))"
| "exec (OpImportFromFile path) (s, fs) = (snd (ImportFromFile path s fs), fs)"

text \<open>The sum of two amounts fits in \<open>int64\<close>: the addition does not wrap around.\<close>

definition add_fits :: "Money \<Rightarrow> Money \<Rightarrow> bool" where
  "add_fits a b \<longleftrightarrow> - 9223372036854775808 \<le> sint a + sint b \<and> sint a + sint b \<le> 9223372036854775807"

text \<open>
  A deposit fits when the account it reaches, if there is one, can take the amount. A call
  is admissible in a state when the addition it makes to a balance, if it makes
  one, fits in \<open>int64\<close>, and when the file it imports, if it imports one, carries no
  negative balance in the records it reads.
\<close>

definition deposit_fits :: "int64 \<Rightarrow> Money \<Rightarrow> Service \<Rightarrow> bool" where
  "deposit_fits accountID amount s =
     (case account_index accountID (accounts s) of
        None \<Rightarrow> True
      | Some i \<Rightarrow> add_fits (Balance (accounts s ! i)) amount)"

fun admissible :: "operation \<Rightarrow> Service \<times> FileSystem \<Rightarrow> bool" where
  "admissible (OpDeposit accountID amount) (s, fs) = deposit_fits accountID amount s"
| "admissible (OpReject paymentID) (s, fs) =
     (case payment_index paymentID (payments s) of
        None \<Rightarrow> True
      | Some j \<Rightarrow>
          (case account_index (AccountID (payments s ! j)) (accounts s) of
             None \<Rightarrow> True
           | Some i \<Rightarrow> add_fits (Balance (accounts s ! i)) (Amount (payments s ! j))))"
| "admissible (OpAddAccountWithBalance phone balance) (s, fs) =
     (if phone_registered phone (accounts s) then True
      else deposit_fits (nextAccountID s + 1) balance (snd (RegisterAccount phone s)))"
| "admissible (OpImportFromFile path) (s, fs) =
     (case fs path of
        None \<Rightarrow> True
      | Some file \<Rightarrow>
          list_all (\<lambda>line. 0 \<le>s Balance (account_of_line line))
            (takeWhile (\<lambda>line. line \<noteq> [] \<and> 3 \<le> length (Split line CHR '';''))
               (Split file CHR ''|'')))"
| "admissible _ _ = True"

text \<open>
  The invariant of the runs: no balance is negative, and every payment recorded has a
  positive amount (a payment is what \<open>Reject\<close> refunds).
\<close>

definition balances_ok :: "Service \<Rightarrow> bool" where
  "balances_ok s \<longleftrightarrow>
     list_all (\<lambda>account. 0 \<le>s Balance account) (accounts s) \<and>
     list_all (\<lambda>payment. 0 <s Amount payment) (payments s)"

inductive reachable :: "Service \<times> FileSystem \<Rightarrow> bool" where
  init: "reachable (empty_Service, fs)"
| step: "reachable w \<Longrightarrow> admissible op w \<Longrightarrow> reachable (exec op w)"

section \<open>Lookups and updates\<close>

lemma account_index_Some:
  "account_index accountID accs = Some i \<Longrightarrow> i < length accs \<and> ID (accs ! i) = accountID"
  by (induction accs arbitrary: i) (auto split: if_splits)

lemma payment_index_Some:
  "payment_index paymentID ps = Some j \<Longrightarrow> j < length ps \<and> PaymentID (ps ! j) = paymentID"
  by (induction ps arbitrary: j) (auto split: if_splits)

lemma account_index_cong:
  "map ID xs = map ID ys \<Longrightarrow> account_index accountID xs = account_index accountID ys"
proof (induction xs arbitrary: ys)
  case Nil
  then show ?case by simp
next
  case (Cons x xs)
  then obtain y ys' where "ys = y # ys'" by (cases ys) auto
  with Cons show ?case by auto
qed

lemma payment_index_cong:
  "map PaymentID xs = map PaymentID ys \<Longrightarrow> payment_index paymentID xs = payment_index paymentID ys"
proof (induction xs arbitrary: ys)
  case Nil
  then show ?case by simp
next
  case (Cons x xs)
  then obtain y ys' where "ys = y # ys'" by (cases ys) auto
  with Cons show ?case by auto
qed

lemma map_update_same: "(map f xs)[i := f (xs ! i)] = map f xs"
  by (metis list_update_id map_update)

lemma account_index_Balance_update [simp]:
  "account_index accountID (accs[i := (accs ! i)\<lparr>Balance := b\<rparr>]) = account_index accountID accs"
  by (rule account_index_cong) (simp add: map_update map_update_same)

lemma payment_index_Status_update [simp]:
  "payment_index paymentID (ps[j := (ps ! j)\<lparr>Status := st\<rparr>]) = payment_index paymentID ps"
  by (rule payment_index_cong) (simp add: map_update map_update_same)

lemma phone_registered_iff:
  "phone_registered phone accs \<longleftrightarrow> phone \<in> Phone ` set accs"
  by (induction accs) auto

section \<open>Signed 64-bit arithmetic\<close>

lemma sint_sub_no_overflow:
  fixes a b :: int64
  assumes "0 < sint b" "sint b \<le> sint a"
  shows "sint (a - b) = sint a - sint b"
proof -
  have "sint a < 2 ^ 63" using sint_lt [of a] by simp
  with assms have "- (2 ^ 63) \<le> sint a - sint b" "sint a - sint b < 2 ^ 63" by simp_all
  then show ?thesis
    by (simp add: sint_word_ariths signed_take_bit_int_eq_self)
qed

lemma sint_add_fits:
  fixes a b :: int64
  assumes "add_fits a b"
  shows "sint (a + b) = sint a + sint b"
proof -
  from assms have "- (2 ^ 63) \<le> sint a + sint b" "sint a + sint b < 2 ^ 63"
    by (simp_all add: add_fits_def)
  then show ?thesis
    by (simp add: sint_word_ariths signed_take_bit_int_eq_self)
qed


lemma unat_of_nat_eq64: "n < 2 ^ 64 \<Longrightarrow> unat (of_nat n :: 64 word) = n"
  by (simp add: unat_of_nat)

lemma uint_nonneg_sint:
  fixes i :: int64
  assumes "\<not> i <s 0"
  shows "uint i = sint i" and "unat i < 2 ^ 63"
proof -
  have s: "0 \<le> sint i" using assms by (simp add: word_sless_alt)
  have b: "sint i < 2 ^ 63" using sint_lt [of i] by simp
  have "uint i = take_bit 64 (sint i)" by (simp add: uint_sint)
  also have "\<dots> = sint i" using s b by (simp add: take_bit_int_eq_self)
  finally show u: "uint i = sint i" .
  show "unat i < 2 ^ 63" using u s b by (simp add: unat_eq_nat_uint del: nat_uint_eq)
qed

lemma uint_neg_sint:
  fixes i :: int64
  assumes "i <s 0"
  shows "uint (- i) = - sint i" and "unat (- i) \<le> 2 ^ 63"
proof -
  have s: "sint i < 0" using assms by (simp add: word_sless_alt)
  have b: "- (2 ^ 63) \<le> sint i" using sint_ge [of i] by simp
  have "- i = word_of_int (- sint i)" by simp
  then have "uint (- i) = take_bit 64 (- sint i)" by (simp only: uint_word_of_int_eq) simp
  also have "\<dots> = - sint i" using s b by (simp add: take_bit_int_eq_self)
  finally show u: "uint (- i) = - sint i" .
  show "unat (- i) \<le> 2 ^ 63" using u s b by (simp add: unat_eq_nat_uint del: nat_uint_eq)
qed

section \<open>Decimal formatting and parsing\<close>

declare formatBits.simps [simp del]

lemma digit_chars:
  "char_of (48::nat) = CHR ''0''" "char_of (49::nat) = CHR ''1''" "char_of (50::nat) = CHR ''2''"
  "char_of (51::nat) = CHR ''3''" "char_of (52::nat) = CHR ''4''" "char_of (53::nat) = CHR ''5''"
  "char_of (54::nat) = CHR ''6''" "char_of (55::nat) = CHR ''7''" "char_of (56::nat) = CHR ''8''"
  "char_of (57::nat) = CHR ''9''"
  by code_simp+

lemma formatBits_digits:
  "c \<in> set (formatBits u) \<Longrightarrow> 48 \<le> (of_char c :: nat) \<and> (of_char c :: nat) \<le> 57"
proof (induction u arbitrary: c rule: formatBits.induct)
  case (1 u)
  show ?case
  proof (cases "u < 10")
    case True
    with "1.prems" have "c = char_of (48 + u)" by (subst (asm) formatBits.simps) simp
    with True show ?thesis by simp
  next
    case False
    with "1.prems" have "c \<in> set (formatBits (u div 10)) \<or> c = char_of (48 + u mod 10)"
      by (subst (asm) formatBits.simps) auto
    then show ?thesis
    proof
      assume "c \<in> set (formatBits (u div 10))"
      with False "1.IH" show ?thesis by simp
    next
      assume c: "c = char_of (48 + u mod 10)"
      have "u mod 10 < 10" by simp
      then have "(48 + u mod 10) mod 256 = 48 + u mod 10" by simp
      with c show ?thesis by simp
    qed
  qed
qed

lemma formatBits_nonempty: "formatBits u \<noteq> []"
  by (subst formatBits.simps) simp

lemma formatBits_hd:
  "hd (formatBits u) \<noteq> CHR ''+'' \<and> hd (formatBits u) \<noteq> CHR ''-''"
proof -
  have "hd (formatBits u) \<in> set (formatBits u)" by (simp add: formatBits_nonempty)
  then have "48 \<le> (of_char (hd (formatBits u)) :: nat)" by (simp add: formatBits_digits)
  then show ?thesis by auto
qed

lemma ParseUint_loop_append:
  "ParseUint_loop (xs @ ys) n =
     (case ParseUint_loop xs n of
        (m, None) \<Rightarrow> ParseUint_loop ys m
      | (m, Some e) \<Rightarrow> (m, Some e))"
  by (induction xs arbitrary: n) (auto simp: Let_def)

lemma ParseUint_loop_digit:
  fixes u :: nat
  assumes u: "u < 2 ^ 64" and d: "d < 10" and ud: "u = 10 * q + d"
  shows "ParseUint_loop [char_of (48 + d)] (of_nat q) = (of_nat u, None)"
proof -
  have q: "q < 1844674407370955162" using u ud by simp
  have oc: "(of_char (char_of (48 + d)) :: nat) = 48 + d" using d by simp
  have ocw: "(of_char (char_of (48 + d)) :: 64 word) = of_nat (48 + d)"
    using oc by (metis of_nat_of_char)
  have dw: "(of_char (char_of (48 + d)) :: 64 word) - 48 = of_nat d"
    by (simp add: ocw)
  have uq: "unat (of_nat q :: 64 word) = q"
    using q by (simp add: unat_of_nat_eq64)
  have c1: "\<not> (1844674407370955162 :: 64 word) \<le> of_nat q"
    using q by (simp add: word_le_nat_alt uq)
  have n1: "(of_nat q :: 64 word) * 10 + of_nat d = of_nat u"
    by (simp add: ud)
  have un': "unat ((of_nat q :: 64 word) * 10) = q * 10"
  proof -
    have "(of_nat q :: 64 word) * 10 = of_nat (q * 10)" by simp
    moreover have "q * 10 < 2 ^ 64" using q by simp
    ultimately show ?thesis by (simp only: unat_of_nat_eq64)
  qed
  have uu: "unat (of_nat u :: 64 word) = u" using u by (simp add: unat_of_nat_eq64)
  have c2: "\<not> (of_nat u :: 64 word) < of_nat q * 10"
    by (simp only: word_less_nat_alt un' uu) (simp add: ud)
  show ?thesis
    using c1 c2 d by (simp add: Let_def dw n1 oc)
qed

lemma ParseUint_loop_formatBits:
  "u < 2 ^ 64 \<Longrightarrow> ParseUint_loop (formatBits u) 0 = (of_nat u, None)"
proof (induction u rule: formatBits.induct)
  case (1 u)
  show ?case
  proof (cases "u < 10")
    case True
    have "ParseUint_loop [char_of (48 + u)] (of_nat 0) = (of_nat u, None)"
      using "1.prems" True by (intro ParseUint_loop_digit) simp_all
    with True show ?thesis by (subst formatBits.simps) simp
  next
    case False
    have small: "u div 10 < 2 ^ 64" using "1.prems" by simp
    have ih: "ParseUint_loop (formatBits (u div 10)) 0 = (of_nat (u div 10), None)"
      using "1.IH" False small by simp
    have last: "ParseUint_loop [char_of (48 + u mod 10)] (of_nat (u div 10)) = (of_nat u, None)"
      using "1.prems" by (intro ParseUint_loop_digit) simp_all
    have fb: "formatBits u = formatBits (u div 10) @ [char_of (48 + u mod 10)]"
      using False by (subst formatBits.simps) simp
    show ?thesis
      by (simp only: fb ParseUint_loop_append ih last prod.case option.case)
  qed
qed

lemma ParseInt_FormatInt: "ParseInt (FormatInt i) = (i, None)"
proof (cases "i <s 0")
  case False
  have u: "unat i < 2 ^ 63" by (rule uint_nonneg_sint(2) [OF False])
  then have u64: "unat i < 2 ^ 64" by simp
  have p: "ParseUint (formatBits (unat i)) = (i, None)"
    by (simp add: ParseUint_def formatBits_nonempty ParseUint_loop_formatBits [OF u64])
  have r: "\<not> (9223372036854775808 :: 64 word) \<le> i"
    using u by (simp add: word_le_nat_alt)
  show ?thesis
    using False r by (simp add: ParseInt_def FormatInt_def formatBits_nonempty formatBits_hd p)
next
  case True
  have u: "unat (- i) \<le> 2 ^ 63" by (rule uint_neg_sint(2) [OF True])
  then have u64: "unat (- i) < 2 ^ 64" by simp
  have p: "ParseUint (formatBits (unat (- i))) = (- i, None)"
    by (simp add: ParseUint_def formatBits_nonempty ParseUint_loop_formatBits [OF u64])
  have r: "\<not> (9223372036854775808 :: 64 word) < - i"
    using u by (simp add: word_less_nat_alt)
  show ?thesis
    using True r by (simp add: ParseInt_def FormatInt_def p)
qed

lemma FormatInt_nonempty: "FormatInt i \<noteq> []"
  by (simp add: FormatInt_def formatBits_nonempty)

lemma FormatInt_chars:
  "c \<in> set (FormatInt i) \<Longrightarrow> c \<noteq> CHR '';'' \<and> c \<noteq> CHR ''|''"
proof -
  assume "c \<in> set (FormatInt i)"
  then have "c = CHR ''-'' \<or> (48 \<le> (of_char c :: nat) \<and> (of_char c :: nat) \<le> 57)"
    by (auto simp: FormatInt_def dest: formatBits_digits split: if_splits)
  then show ?thesis by auto
qed

section \<open>Splitting, reading and writing\<close>

declare ImportFromFile_read.simps [simp del]

lemma ImportFromFile_read_eq: "ImportFromFile_read bytes content = content @ bytes"
proof (induction bytes content rule: ImportFromFile_read.induct)
  case (1 bytes content)
  show ?case
  proof (cases "bytes = []")
    case True
    then show ?thesis by (subst ImportFromFile_read.simps) simp
  next
    case False
    then have "ImportFromFile_read bytes content = ImportFromFile_read (drop 4 bytes) (content @ take 4 bytes)"
      by (subst ImportFromFile_read.simps) simp
    also have "\<dots> = (content @ take 4 bytes) @ drop 4 bytes"
      using "1.IH" False by simp
    finally show ?thesis by simp
  qed
qed

lemma ExportToFile_loop_eq:
  "ExportToFile_loop accs room bytes =
     (if length (concat (map record_of_account accs)) \<le> room
      then (None, bytes @ concat (map record_of_account accs))
      else (Some WriteError, bytes @ take room (concat (map record_of_account accs))))"
proof (induction accs arbitrary: room bytes)
  case Nil
  then show ?case by simp
next
  case (Cons account rest)
  let ?r = "record_of_account account"
  have step: "ExportToFile_loop (account # rest) room bytes =
      (if length ?r \<le> room
       then ExportToFile_loop rest (room - length ?r) (bytes @ ?r)
       else (Some WriteError, bytes @ take room ?r))"
    by (simp add: Let_def record_of_account_def)
  show ?case
  proof (cases "length ?r \<le> room")
    case True
    have "ExportToFile_loop (account # rest) room bytes =
        ExportToFile_loop rest (room - length ?r) (bytes @ ?r)"
      using True by (simp only: step if_True)
    also have "\<dots> =
        (if length (concat (map record_of_account rest)) \<le> room - length ?r
         then (None, (bytes @ ?r) @ concat (map record_of_account rest))
         else (Some WriteError, (bytes @ ?r) @ take (room - length ?r) (concat (map record_of_account rest))))"
      by (rule Cons.IH)
    finally show ?thesis using True by auto
  next
    case False
    have "ExportToFile_loop (account # rest) room bytes = (Some WriteError, bytes @ take room ?r)"
      using False by (simp only: step if_False)
    then show ?thesis using False by simp
  qed
qed

lemma Split_nonempty: "Split s sep \<noteq> []"
  by (induction s) (auto split: list.splits)

lemma Split_no_sep: "sep \<notin> set a \<Longrightarrow> Split a sep = [a]"
  by (induction a) auto

lemma Split_append_sep:
  "sep \<notin> set a \<Longrightarrow> Split (a @ sep # rest) sep = a # Split rest sep"
  by (induction a) (auto split: list.splits)

lemma length_Split: "length (Split s sep) = Suc (count_list s sep)"
  by (induction s) (auto split: list.splits)

lemma Split_records:
  assumes "\<forall>b \<in> set bodies. sep \<notin> set b"
  shows "Split (concat (map (\<lambda>b. b @ [sep]) bodies)) sep = bodies @ [[]]"
  using assms by (induction bodies) (simp_all add: Split_append_sep)

subsection \<open>The loop over the records\<close>

lemma ImportFromFile_lines_eq:
  "ImportFromFile_lines lines err accs =
     (let imported = takeWhile (\<lambda>line. line \<noteq> [] \<and> 3 \<le> length (Split line CHR '';'')) lines;
          rest = dropWhile (\<lambda>line. line \<noteq> [] \<and> 3 \<le> length (Split line CHR '';'')) lines
      in (if rest \<noteq> [] \<and> hd rest \<noteq> [] then Panic else Return err,
          accs @ map account_of_line imported))"
proof (induction lines arbitrary: accs)
  case Nil
  then show ?case by simp
next
  case (Cons line rest)
  show ?case
  proof (cases "line \<noteq> [] \<and> 3 \<le> length (Split line CHR '';'')")
    case True
    then have "\<not> length (Split line CHR '';'') \<le> 2" by simp
    with True show ?thesis
      by (simp add: Cons.IH Let_def account_of_line_def)
  next
    case False
    then show ?thesis by (auto simp: Let_def)
  qed
qed

lemma ImportFromFile_eq:
  assumes "fs path = Some content"
  shows "ImportFromFile path s fs =
     (let lines = Split content CHR ''|'';
          imported = takeWhile (\<lambda>line. line \<noteq> [] \<and> 3 \<le> length (Split line CHR '';'')) lines;
          rest = dropWhile (\<lambda>line. line \<noteq> [] \<and> 3 \<le> length (Split line CHR '';'')) lines
      in (if rest \<noteq> [] \<and> hd rest \<noteq> [] then Panic else Return None,
          s\<lparr>accounts := accounts s @ map account_of_line imported\<rparr>))"
  by (simp add: ImportFromFile_def assms ImportFromFile_read_eq ImportFromFile_lines_eq Let_def)

subsection \<open>What is written is read back\<close>

lemma record_body:
  "butlast (record_of_account a) = FormatInt (ID a) @ '';'' @ Phone a @ '';'' @ FormatInt (Balance a)"
  "record_of_account a = butlast (record_of_account a) @ ''|''"
  by (simp_all add: record_of_account_def butlast_append)

lemma record_body_nonempty: "butlast (record_of_account a) \<noteq> []"
  by (simp add: record_body(1) FormatInt_nonempty)

lemma record_body_no_bar:
  "CHR ''|'' \<notin> set (Phone a) \<Longrightarrow> CHR ''|'' \<notin> set (butlast (record_of_account a))"
  using FormatInt_chars by (auto simp: record_body(1))

lemma record_body_fields:
  "3 \<le> length (Split (butlast (record_of_account a)) CHR '';'')"
  by (simp add: record_body(1) length_Split)

lemma record_body_Split:
  assumes "CHR '';'' \<notin> set (Phone a)"
  shows "Split (butlast (record_of_account a)) CHR '';'' =
           [FormatInt (ID a), Phone a, FormatInt (Balance a)]"
proof -
  have i: "CHR '';'' \<notin> set (FormatInt (ID a))" and b: "CHR '';'' \<notin> set (FormatInt (Balance a))"
    using FormatInt_chars by blast+
  show ?thesis
    by (simp add: record_body(1) Split_append_sep [OF i] Split_append_sep [OF assms] Split_no_sep [OF b])
qed

lemma account_of_record_body:
  assumes "CHR '';'' \<notin> set (Phone a)"
  shows "account_of_line (butlast (record_of_account a)) = a"
  by (simp add: account_of_line_def record_body_Split [OF assms] ParseInt_FormatInt)

lemma Split_exported:
  assumes "\<forall>a \<in> set accs. CHR ''|'' \<notin> set (Phone a)"
  shows "Split (concat (map record_of_account accs)) CHR ''|'' =
           map (\<lambda>a. butlast (record_of_account a)) accs @ [[]]"
proof -
  have "concat (map record_of_account accs) =
        concat (map (\<lambda>b. b @ [CHR ''|'']) (map (\<lambda>a. butlast (record_of_account a)) accs))"
    by (induction accs) (simp_all add: record_body(2) [symmetric])
  moreover have "\<forall>b \<in> set (map (\<lambda>a. butlast (record_of_account a)) accs). CHR ''|'' \<notin> set b"
    using assms record_body_no_bar by auto
  ultimately show ?thesis by (simp only: Split_records)
qed

lemma takeWhile_exported:
  "takeWhile (\<lambda>line. line \<noteq> [] \<and> 3 \<le> length (Split line CHR '';''))
     (map (\<lambda>a. butlast (record_of_account a)) accs @ [[]]) = map (\<lambda>a. butlast (record_of_account a)) accs"
  "dropWhile (\<lambda>line. line \<noteq> [] \<and> 3 \<le> length (Split line CHR '';''))
     (map (\<lambda>a. butlast (record_of_account a)) accs @ [[]]) = [[]]"
  by (induction accs) (simp_all add: record_body_nonempty record_body_fields)

lemma ExportToFile_nil_iff:
  "fst (ExportToFile path created room s fs) = None \<longleftrightarrow>
     created \<and> length (concat (map record_of_account (accounts s))) \<le> room"
  by (simp add: ExportToFile_def ExportToFile_loop_eq)

lemma ExportToFile_eq:
  "fst (ExportToFile path created room s fs) = None \<Longrightarrow>
   ExportToFile path created room s fs =
     (None, fs(path \<mapsto> concat (map record_of_account (accounts s))))"
  by (simp add: ExportToFile_def ExportToFile_loop_eq split: if_splits)

lemma Import_exported:
  assumes "fs path = Some (concat (map record_of_account accs))"
    and "\<forall>a \<in> set accs. CHR ''|'' \<notin> set (Phone a)"
  shows "ImportFromFile path s fs =
           (Return None, s\<lparr>accounts := accounts s @ map (\<lambda>a. account_of_line (butlast (record_of_account a))) accs\<rparr>)"
  by (simp add: ImportFromFile_eq [where fs = fs and path = path, OF assms(1)] Split_exported [OF assms(2)] takeWhile_exported Let_def o_def)

section \<open>Registration and deposit\<close>

lemma RegisterAccount_fail:
  "phone \<in> Phone ` set (accounts s) \<Longrightarrow> RegisterAccount phone s = (Inl ErrPhoneRegistered, s)"
  by (simp add: RegisterAccount_def phone_registered_iff)

lemma RegisterAccount_ok:
  "phone \<notin> Phone ` set (accounts s) \<Longrightarrow>
   RegisterAccount phone s =
     (Inr (length (accounts s)),
      s\<lparr>nextAccountID := nextAccountID s + 1,
        accounts := accounts s @ [\<lparr>ID = nextAccountID s + 1, Phone = phone, Balance = 0\<rparr>]\<rparr>)"
  by (simp add: RegisterAccount_def phone_registered_iff Let_def)

lemma register_all_accounts:
  "distinct phones \<Longrightarrow> set phones \<inter> Phone ` set (accounts s) = {} \<Longrightarrow>
   accounts (register_all phones s) =
     accounts s @ map (\<lambda>(k, phone). \<lparr>ID = nextAccountID s + of_nat (Suc k), Phone = phone, Balance = 0\<rparr>)
                      (enumerate 0 phones)
   \<and> nextAccountID (register_all phones s) = nextAccountID s + of_nat (length phones)"
proof (induction phones arbitrary: s)
  case Nil
  then show ?case by simp
next
  case (Cons phone rest)
  let ?s1 = "snd (RegisterAccount phone s)"
  from Cons.prems have fresh: "phone \<notin> Phone ` set (accounts s)" by auto
  have s1: "?s1 = s\<lparr>nextAccountID := nextAccountID s + 1,
        accounts := accounts s @ [\<lparr>ID = nextAccountID s + 1, Phone = phone, Balance = 0\<rparr>]\<rparr>"
    by (simp add: RegisterAccount_ok [OF fresh])
  have d: "distinct rest" using Cons.prems by simp
  have disj: "set rest \<inter> Phone ` set (accounts ?s1) = {}"
    using Cons.prems by (auto simp: s1)
  show ?case
    using Cons.IH [OF d disj]
    by (simp add: s1 enumerate_Suc_eq o_def split_def add.assoc)
qed

lemma RegisterAccount_Inl:
  "fst (RegisterAccount phone s) = Inl e \<Longrightarrow> RegisterAccount phone s = (Inl ErrPhoneRegistered, s)"
  by (simp add: RegisterAccount_def Let_def split: if_splits)

lemma Deposit_fail_state:
  "fst (Deposit accountID amount s) = Some e \<Longrightarrow> Deposit accountID amount s = (Some e, s)"
  by (auto simp: Deposit_def Let_def split: if_splits option.splits)

lemma AddAccountWithBalance_register_fails:
  assumes "fst (RegisterAccount phone s) = Inl e"
  shows "AddAccountWithBalance phone balance s = (Inl ErrCannotRegisterAccount, s)"
  using RegisterAccount_Inl [OF assms] by (simp add: AddAccountWithBalance_def)

lemma AddAccountWithBalance_deposit_fails:
  assumes r: "RegisterAccount phone s = (Inr a, s1)"
    and d: "fst (Deposit (ID (accounts s1 ! a)) balance s1) = Some e"
  shows "AddAccountWithBalance phone balance s = (Inl ErrCannotDepositAccount, s1)
     \<and> accounts s1 = accounts s @ [\<lparr>ID = nextAccountID s + 1, Phone = phone, Balance = 0\<rparr>]"
proof -
  have fresh: "phone \<notin> Phone ` set (accounts s)"
    using r RegisterAccount_fail [of phone s] by auto
  have s1: "s1 = s\<lparr>nextAccountID := nextAccountID s + 1,
        accounts := accounts s @ [\<lparr>ID = nextAccountID s + 1, Phone = phone, Balance = 0\<rparr>]\<rparr>"
    using r RegisterAccount_ok [OF fresh] by simp
  show ?thesis
    using Deposit_fail_state [OF d] by (simp add: AddAccountWithBalance_def r) (simp add: s1)
qed

lemma AddAccountWithBalance_nonpositive:
  assumes fresh: "phone \<notin> Phone ` set (accounts s)" and b: "balance \<le>s 0"
  shows "AddAccountWithBalance phone balance s =
     (Inl ErrCannotDepositAccount,
      s\<lparr>nextAccountID := nextAccountID s + 1,
        accounts := accounts s @ [\<lparr>ID = nextAccountID s + 1, Phone = phone, Balance = 0\<rparr>]\<rparr>)"
  by (simp add: AddAccountWithBalance_def RegisterAccount_ok [OF fresh] Deposit_def b)

section \<open>Paying and rejecting\<close>

lemma Pay_nonpositive:
  "amount \<le>s 0 \<Longrightarrow> Pay accountID amount category uuid s = (Inl ErrAmountMustBePositive, s)"
  by (simp add: Pay_def)

lemma Pay_not_enough:
  "\<not> amount \<le>s 0 \<Longrightarrow> FindAccountByID accountID s = Inr i \<Longrightarrow> Balance (accounts s ! i) <s amount \<Longrightarrow>
   Pay accountID amount category uuid s = (Inl ErrNotEnoughBalance, s)"
  by (simp add: Pay_def)

lemma Pay_fails_unchanged:
  "fst (Pay accountID amount category uuid s) = Inl e \<Longrightarrow> snd (Pay accountID amount category uuid s) = s"
  by (auto simp: Pay_def Let_def split: if_splits sum.splits)

lemma Pay_length:
  "length (accounts (snd (Pay accountID amount category uuid s))) = length (accounts s)"
  by (auto simp: Pay_def Let_def split: if_splits sum.splits)

lemma Pay_keeps_nonneg:
  assumes "0 \<le>s Balance (accounts s ! k)" "k < length (accounts s)"
  shows "0 \<le>s Balance (accounts (snd (Pay accountID amount category uuid s)) ! k)"
proof (cases "fst (Pay accountID amount category uuid s)")
  case (Inl e)
  then show ?thesis using assms by (simp add: Pay_fails_unchanged)
next
  case (Inr p)
  then obtain i where pos: "\<not> amount \<le>s 0" and i: "FindAccountByID accountID s = Inr i"
    and enough: "\<not> Balance (accounts s ! i) <s amount"
    by (auto simp: Pay_def Let_def split: if_splits sum.splits)
  have acc: "accounts (snd (Pay accountID amount category uuid s)) =
      (accounts s)[i := (accounts s ! i)\<lparr>Balance := Balance (accounts s ! i) - amount\<rparr>]"
    using pos i enough by (simp add: Pay_def Let_def)
  show ?thesis
  proof (cases "k = i")
    case True
    have "sint (Balance (accounts s ! i) - amount) = sint (Balance (accounts s ! i)) - sint amount"
      using pos enough by (intro sint_sub_no_overflow) (simp_all add: word_sle_eq word_sless_alt)
    then show ?thesis using assms pos enough True
      by (simp add: acc word_sle_eq word_sless_alt)
  next
    case False
    then show ?thesis using assms by (simp add: acc)
  qed
qed

lemma Reject_ok:
  assumes p: "FindPaymentByID paymentID s = Inr j"
    and a: "FindAccountByID (AccountID (payments s ! j)) s = Inr i"
  shows "Reject paymentID s =
     (None, s\<lparr>payments := (payments s)[j := (payments s ! j)\<lparr>Status := PaymentStatusFail\<rparr>],
              accounts := (accounts s)[i := (accounts s ! i)\<lparr>Balance := Balance (accounts s ! i) + Amount (payments s ! j)\<rparr>]\<rparr>)"
  using p a by (simp add: Reject_def Let_def)

lemma Reject_twice:
  assumes p: "FindPaymentByID paymentID s = Inr j"
    and a: "FindAccountByID (AccountID (payments s ! j)) s = Inr i"
  shows "Reject paymentID (snd (Reject paymentID s)) =
     (None, s\<lparr>payments := (payments s)[j := (payments s ! j)\<lparr>Status := PaymentStatusFail\<rparr>],
              accounts := (accounts s)[i := (accounts s ! i)\<lparr>Balance := Balance (accounts s ! i) + 2 * Amount (payments s ! j)\<rparr>]\<rparr>)"
proof -
  let ?s1 = "snd (Reject paymentID s)"
  have j: "j < length (payments s)" and i: "i < length (accounts s)"
    using p a payment_index_Some [of paymentID "payments s" j]
      account_index_Some [of "AccountID (payments s ! j)" "accounts s" i]
    by (auto simp: FindPaymentByID_def FindAccountByID_def split: option.splits)
  have s1: "?s1 = s\<lparr>payments := (payments s)[j := (payments s ! j)\<lparr>Status := PaymentStatusFail\<rparr>],
              accounts := (accounts s)[i := (accounts s ! i)\<lparr>Balance := Balance (accounts s ! i) + Amount (payments s ! j)\<rparr>]\<rparr>"
    by (simp add: Reject_ok [OF p a])
  have p1: "FindPaymentByID paymentID ?s1 = Inr j"
    using p by (simp add: s1 FindPaymentByID_def)
  have a1: "FindAccountByID (AccountID (payments ?s1 ! j)) ?s1 = Inr i"
    using a j by (simp add: s1 FindAccountByID_def)
  show ?thesis
    using j i by (simp add: Reject_ok [OF p1 a1]) (simp add: s1 add.commute)
qed

subsection \<open>The lookups find what is there\<close>

text \<open>
  A lookup succeeds for every identifier an element of the collection carries, and what it
  returns is the first element with the identifier: the only one when identifiers are
  unique.
\<close>

lemma payment_index_complete:
  "p \<in> set ps \<Longrightarrow> \<exists>j. payment_index (PaymentID p) ps = Some j"
  by (induction ps) auto

lemma account_index_complete:
  "a \<in> set accs \<Longrightarrow> \<exists>i. account_index (ID a) accs = Some i"
  by (induction accs) auto

lemma account_index_first:
  "account_index accountID accs = Some i \<Longrightarrow> \<forall>k<i. ID (accs ! k) \<noteq> accountID"
proof (induction accs arbitrary: i)
  case Nil
  then show ?case by simp
next
  case (Cons account rest)
  show ?case
  proof (cases "ID account = accountID")
    case True
    with Cons.prems show ?thesis by simp
  next
    case False
    with Cons.prems obtain i' where i': "account_index accountID rest = Some i'" and i: "i = Suc i'"
      by auto
    show ?thesis
    proof (intro allI impI)
      fix k assume "k < i"
      then show "ID ((account # rest) ! k) \<noteq> accountID"
        using False Cons.IH [OF i'] i by (cases k) auto
    qed
  qed
qed

lemma payment_index_distinct:
  "distinct (map PaymentID ps) \<Longrightarrow> j < length ps \<Longrightarrow> payment_index (PaymentID (ps ! j)) ps = Some j"
proof (induction ps arbitrary: j)
  case Nil
  then show ?case by simp
next
  case (Cons payment rest)
  show ?case
  proof (cases j)
    case 0
    then show ?thesis by simp
  next
    case (Suc j')
    then have j': "j' < length rest" using Cons.prems by simp
    then have "PaymentID (rest ! j') \<in> set (map PaymentID rest)" by simp
    then have "PaymentID payment \<noteq> PaymentID (rest ! j')" using Cons.prems(1) by auto
    then show ?thesis using Cons.IH [of j'] Cons.prems(1) j' Suc by simp
  qed
qed

lemma account_index_distinct:
  "distinct (map ID accs) \<Longrightarrow> i < length accs \<Longrightarrow> account_index (ID (accs ! i)) accs = Some i"
proof (induction accs arbitrary: i)
  case Nil
  then show ?case by simp
next
  case (Cons account rest)
  show ?case
  proof (cases i)
    case 0
    then show ?thesis by simp
  next
    case (Suc i')
    then have i': "i' < length rest" using Cons.prems by simp
    then have "ID (rest ! i') \<in> set (map ID rest)" by simp
    then have "ID account \<noteq> ID (rest ! i')" using Cons.prems(1) by auto
    then show ?thesis using Cons.IH [of i'] Cons.prems(1) i' Suc by simp
  qed
qed

section \<open>Importing a file\<close>

lemma takeWhile_fields:
  assumes "\<forall>line \<in> set (takeWhile (\<lambda>l. l \<noteq> []) lines). 3 \<le> length (Split line c)"
  shows "takeWhile (\<lambda>l. l \<noteq> [] \<and> 3 \<le> length (Split l c)) lines = takeWhile (\<lambda>l. l \<noteq> []) lines"
    and "dropWhile (\<lambda>l. l \<noteq> [] \<and> 3 \<le> length (Split l c)) lines = dropWhile (\<lambda>l. l \<noteq> []) lines"
  using assms by (induction lines) auto

lemma dropWhile_nonempty_hd:
  "dropWhile (\<lambda>l. l \<noteq> []) lines \<noteq> [] \<Longrightarrow> hd (dropWhile (\<lambda>l. l \<noteq> []) lines) = []"
  using hd_dropWhile [of "\<lambda>l. l \<noteq> []" lines] by simp

lemma ImportFromFile_wellformed:
  assumes f: "fs path = Some content"
    and w: "\<forall>line \<in> set (takeWhile (\<lambda>l. l \<noteq> []) (Split content CHR ''|'')). 3 \<le> length (Split line CHR '';'')"
  shows "ImportFromFile path s fs =
     (Return None,
      s\<lparr>accounts := accounts s @ map account_of_line (takeWhile (\<lambda>l. l \<noteq> []) (Split content CHR ''|''))\<rparr>)"
proof -
  let ?lines = "Split content CHR ''|''"
  have h: "\<not> (dropWhile (\<lambda>l. l \<noteq> []) ?lines \<noteq> [] \<and> hd (dropWhile (\<lambda>l. l \<noteq> []) ?lines) \<noteq> [])"
    using dropWhile_nonempty_hd [of ?lines] by blast
  have "ImportFromFile path s fs =
     (if dropWhile (\<lambda>l. l \<noteq> []) ?lines \<noteq> [] \<and> hd (dropWhile (\<lambda>l. l \<noteq> []) ?lines) \<noteq> []
      then Panic else Return None,
      s\<lparr>accounts := accounts s @ map account_of_line (takeWhile (\<lambda>l. l \<noteq> []) ?lines)\<rparr>)"
    by (simp only: ImportFromFile_eq [where fs = fs and path = path, OF f] Let_def takeWhile_fields [OF w])
  with h show ?thesis by simp
qed

lemma ImportFromFile_keeps:
  "take (length (accounts s)) (accounts (snd (ImportFromFile path s fs))) = accounts s \<and>
   nextAccountID (snd (ImportFromFile path s fs)) = nextAccountID s \<and>
   payments (snd (ImportFromFile path s fs)) = payments s \<and>
   favorites (snd (ImportFromFile path s fs)) = favorites s"
proof (cases "fs path")
  case None
  then show ?thesis by (simp add: ImportFromFile_def)
next
  case (Some content)
  show ?thesis
    by (simp add: ImportFromFile_eq [where fs = fs and path = path, OF Some] Let_def)
qed

lemma ImportFromFile_outcome:
  "fs path = Some content \<Longrightarrow>
   fst (ImportFromFile path s fs) = Return None \<or> fst (ImportFromFile path s fs) = Panic"
  by (simp add: ImportFromFile_eq [where fs = fs and path = path] Let_def)



section \<open>The invariant of the runs\<close>

lemma balances_ok_iff:
  "balances_ok s \<longleftrightarrow>
     (\<forall>k < length (accounts s). 0 \<le>s Balance (accounts s ! k)) \<and>
     (\<forall>p \<in> set (payments s). 0 <s Amount p)"
proof -
  have a: "list_all (\<lambda>account. 0 \<le>s Balance account) (accounts s) \<longleftrightarrow>
      (\<forall>k < length (accounts s). 0 \<le>s Balance (accounts s ! k))"
    by (rule list_all_length)
  have p: "list_all (\<lambda>payment. 0 <s Amount payment) (payments s) \<longleftrightarrow>
      (\<forall>p \<in> set (payments s). 0 <s Amount p)"
    by (rule list_all_iff)
  show ?thesis by (simp only: balances_ok_def a p)
qed

lemma balances_ok_empty: "balances_ok empty_Service"
  by (simp add: balances_ok_def empty_Service_def)

lemma balances_ok_RegisterAccount:
  "balances_ok s \<Longrightarrow> balances_ok (snd (RegisterAccount phone s))"
  by (simp add: balances_ok_def RegisterAccount_def Let_def word_sle_eq)

lemma balances_ok_Deposit:
  assumes ok: "balances_ok s" and fits: "deposit_fits accountID amount s"
  shows "balances_ok (snd (Deposit accountID amount s))"
proof (cases "fst (Deposit accountID amount s)")
  case (Some e)
  then show ?thesis using ok by (simp add: Deposit_fail_state)
next
  case None
  then obtain i where pos: "\<not> amount \<le>s 0" and i: "account_index accountID (accounts s) = Some i"
    by (auto simp: Deposit_def Let_def split: if_splits option.splits)
  have il: "i < length (accounts s)" using account_index_Some [OF i] by simp
  have d: "snd (Deposit accountID amount s) =
      s\<lparr>accounts := (accounts s)[i := (accounts s ! i)\<lparr>Balance := Balance (accounts s ! i) + amount\<rparr>]\<rparr>"
    using pos i by (simp add: Deposit_def Let_def)
  have f: "add_fits (Balance (accounts s ! i)) amount"
    using fits i by (simp add: deposit_fits_def)
  have b: "0 \<le> sint (Balance (accounts s ! i))"
    using ok il by (simp add: balances_ok_iff word_sle_eq)
  have "0 \<le> sint (Balance (accounts s ! i) + amount)"
    using pos b by (simp add: sint_add_fits [OF f] word_sle_eq)
  then show ?thesis
    using ok il by (auto simp: balances_ok_iff d nth_list_update word_sle_eq)
qed

lemma balances_ok_Pay:
  assumes ok: "balances_ok s"
  shows "balances_ok (snd (Pay accountID amount category uuid s))"
proof -
  let ?s' = "snd (Pay accountID amount category uuid s)"
  have a: "\<forall>k < length (accounts ?s'). 0 \<le>s Balance (accounts ?s' ! k)"
    using ok Pay_keeps_nonneg [of s _ accountID amount category uuid]
    by (simp add: Pay_length balances_ok_iff)
  have p: "\<forall>p \<in> set (payments ?s'). 0 <s Amount p"
    using ok by (auto simp: Pay_def Let_def balances_ok_iff word_sle_eq word_sless_alt split: if_splits sum.splits)
  show ?thesis using a p by (simp add: balances_ok_iff)
qed

lemma balances_ok_Reject:
  assumes ok: "balances_ok s" and fits: "admissible (OpReject paymentID) (s, fs)"
  shows "balances_ok (snd (Reject paymentID s))"
proof (cases "fst (Reject paymentID s)")
  case (Some e)
  then have "snd (Reject paymentID s) = s"
    by (auto simp: Reject_def Let_def split: sum.splits)
  then show ?thesis using ok by simp
next
  case None
  then obtain j i where j: "FindPaymentByID paymentID s = Inr j"
    and i: "FindAccountByID (AccountID (payments s ! j)) s = Inr i"
    by (auto simp: Reject_def Let_def split: sum.splits)
  have ji: "payment_index paymentID (payments s) = Some j"
    "account_index (AccountID (payments s ! j)) (accounts s) = Some i"
    using j i by (auto simp: FindPaymentByID_def FindAccountByID_def split: option.splits)
  have jl: "j < length (payments s)" and il: "i < length (accounts s)"
    using payment_index_Some [OF ji(1)] account_index_Some [OF ji(2)] by simp_all
  have f: "add_fits (Balance (accounts s ! i)) (Amount (payments s ! j))"
    using fits ji by simp
  have b: "0 \<le> sint (Balance (accounts s ! i))"
    using ok il by (simp add: balances_ok_iff word_sle_eq)
  have am: "0 < sint (Amount (payments s ! j))"
    using ok jl by (simp add: balances_ok_iff word_sless_alt)
  have nb: "0 \<le> sint (Balance (accounts s ! i) + Amount (payments s ! j))"
    using b am by (simp add: sint_add_fits [OF f])
  have pa: "\<forall>p \<in> set ((payments s)[j := (payments s ! j)\<lparr>Status := PaymentStatusFail\<rparr>]). 0 <s Amount p"
  proof
    fix p assume "p \<in> set ((payments s)[j := (payments s ! j)\<lparr>Status := PaymentStatusFail\<rparr>])"
    then have "p = (payments s ! j)\<lparr>Status := PaymentStatusFail\<rparr> \<or> p \<in> set (payments s)"
      using set_update_subset_insert [of "payments s" j] by auto
    then show "0 <s Amount p" using ok jl by (auto simp: balances_ok_iff)
  qed
  show ?thesis
    using ok nb pa il by (auto simp: Reject_ok [OF j i] balances_ok_iff nth_list_update word_sle_eq)
qed

lemma balances_ok_Repeat:
  "balances_ok s \<Longrightarrow> balances_ok (snd (Repeat paymentID uuid s))"
proof -
  assume ok: "balances_ok s"
  have "snd (Repeat paymentID uuid s) = s \<or>
        (\<exists>a m c. snd (Repeat paymentID uuid s) = snd (Pay a m c uuid s))"
  proof (cases "FindPaymentByID paymentID s")
    case (Inl e)
    then show ?thesis by (simp add: Repeat_def)
  next
    case (Inr j)
    have "snd (Repeat paymentID uuid s) =
        snd (Pay (AccountID (payments s ! j)) (Amount (payments s ! j)) (Category (payments s ! j)) uuid s)"
      by (simp add: Repeat_def Inr Let_def split: sum.split prod.split)
    then show ?thesis by blast
  qed
  then show ?thesis using ok balances_ok_Pay by auto
qed

lemma balances_ok_PayFromFavorite:
  "balances_ok s \<Longrightarrow> balances_ok (snd (PayFromFavorite favoriteID uuid s))"
proof -
  assume ok: "balances_ok s"
  have "snd (PayFromFavorite favoriteID uuid s) = s \<or>
        (\<exists>a m c. snd (PayFromFavorite favoriteID uuid s) = snd (Pay a m c uuid s))"
  proof (cases "FindFavoriteByID favoriteID s")
    case (Inl e)
    then show ?thesis by (simp add: PayFromFavorite_def)
  next
    case (Inr k)
    have "snd (PayFromFavorite favoriteID uuid s) =
        snd (Pay (FavAccountID (favorites s ! k)) (FavAmount (favorites s ! k)) (FavCategory (favorites s ! k)) uuid s)"
      by (simp add: PayFromFavorite_def Inr Let_def split: sum.split prod.split)
    then show ?thesis by blast
  qed
  then show ?thesis using ok balances_ok_Pay by auto
qed

lemma balances_ok_FavoritePayment:
  "balances_ok s \<Longrightarrow> balances_ok (snd (FavoritePayment paymentID name uuid s))"
  by (auto simp: FavoritePayment_def Let_def balances_ok_def split: sum.splits)

lemma balances_ok_AddAccountWithBalance:
  assumes ok: "balances_ok s" and fits: "admissible (OpAddAccountWithBalance phone balance) (s, fs)"
  shows "balances_ok (snd (AddAccountWithBalance phone balance s))"
proof (cases "phone \<in> Phone ` set (accounts s)")
  case True
  have "fst (RegisterAccount phone s) = Inl ErrPhoneRegistered"
    by (simp add: RegisterAccount_fail [OF True])
  then show ?thesis using ok by (simp add: AddAccountWithBalance_register_fails)
next
  case False
  define s1 where "s1 = s\<lparr>nextAccountID := nextAccountID s + 1,
        accounts := accounts s @ [\<lparr>ID = nextAccountID s + 1, Phone = phone, Balance = 0\<rparr>]\<rparr>"
  have r: "RegisterAccount phone s = (Inr (length (accounts s)), s1)"
    by (simp add: RegisterAccount_ok [OF False] s1_def)
  have id: "ID (accounts s1 ! length (accounts s)) = nextAccountID s + 1"
    by (simp add: s1_def)
  have f: "deposit_fits (nextAccountID s + 1) balance s1"
    using fits False by (simp add: phone_registered_iff r)
  have ok1: "balances_ok s1" using balances_ok_RegisterAccount [OF ok, of phone] by (simp add: r)
  have "snd (AddAccountWithBalance phone balance s) = snd (Deposit (nextAccountID s + 1) balance s1)"
    by (simp add: AddAccountWithBalance_def r id split: prod.split option.split)
  then show ?thesis using balances_ok_Deposit [OF ok1 f] by simp
qed

lemma balances_ok_ImportFromFile:
  assumes ok: "balances_ok s" and fits: "admissible (OpImportFromFile path) (s, fs)"
  shows "balances_ok (snd (ImportFromFile path s fs))"
proof (cases "fs path")
  case None
  then show ?thesis using ok by (simp add: ImportFromFile_def)
next
  case (Some content)
  have "list_all (\<lambda>line. 0 \<le>s Balance (account_of_line line))
            (takeWhile (\<lambda>line. line \<noteq> [] \<and> 3 \<le> length (Split line CHR '';''))
               (Split content CHR ''|''))"
    using fits Some by simp
  then show ?thesis
    using ok
    by (auto simp: ImportFromFile_eq [where fs = fs and path = path, OF Some] Let_def balances_ok_def
        list_all_iff)
qed

lemma balances_ok_exec:
  assumes "balances_ok (fst w)" and "admissible op w"
  shows "balances_ok (fst (exec op w))"
proof -
  obtain s fs where w: "w = (s, fs)" by (cases w)
  show ?thesis
  proof (cases op)
    case (OpRegisterAccount phone)
    then show ?thesis using assms w by (simp add: balances_ok_RegisterAccount)
  next
    case (OpDeposit accountID amount)
    then show ?thesis using assms w by (simp add: balances_ok_Deposit)
  next
    case (OpPay accountID amount category uuid)
    then show ?thesis using assms w by (simp add: balances_ok_Pay)
  next
    case (OpReject paymentID)
    then show ?thesis using assms w balances_ok_Reject [of s paymentID fs] by simp
  next
    case (OpRepeat paymentID uuid)
    then show ?thesis using assms w by (simp add: balances_ok_Repeat)
  next
    case (OpFavoritePayment paymentID name uuid)
    then show ?thesis using assms w by (simp add: balances_ok_FavoritePayment)
  next
    case (OpPayFromFavorite favoriteID uuid)
    then show ?thesis using assms w by (simp add: balances_ok_PayFromFavorite)
  next
    case (OpAddAccountWithBalance phone balance)
    then show ?thesis using assms w balances_ok_AddAccountWithBalance [of s phone balance fs] by simp
  next
    case (OpExportToFile path created room)
    then show ?thesis using assms w by simp
  next
    case (OpImportFromFile path)
    then show ?thesis using assms w balances_ok_ImportFromFile [of s path fs] by simp
  qed
qed

lemma reachable_balances_ok: "reachable w \<Longrightarrow> balances_ok (fst w)"
  by (induction rule: reachable.induct) (simp_all add: balances_ok_empty balances_ok_exec)

section \<open>The claims\<close>

text \<open>
  C7. \<open>RegisterAccount(phone)\<close> returns \<open>ErrPhoneRegistered\<close> and leaves the service as
  it was when an account already has the phone. Otherwise it appends a new account with
  balance 0 whose ID is the counter plus one, stores that value as the new counter, and
  returns the new account. From the empty service, registering distinct phones one after
  the other gives them the IDs 1, 2, 3, ... in order, and the counter ends at the number
  of registrations.
\<close>

theorem RegisterAccount_sequential:
  "(phone \<in> Phone ` set (accounts s) \<longrightarrow> RegisterAccount phone s = (Inl ErrPhoneRegistered, s)) \<and>
   (phone \<notin> Phone ` set (accounts s) \<longrightarrow>
      RegisterAccount phone s =
        (Inr (length (accounts s)),
         s\<lparr>nextAccountID := nextAccountID s + 1,
           accounts := accounts s @ [\<lparr>ID = nextAccountID s + 1, Phone = phone, Balance = 0\<rparr>]\<rparr>)) \<and>
   (distinct phones \<longrightarrow>
      accounts (register_all phones empty_Service) =
        map (\<lambda>(k, phone). \<lparr>ID = of_nat (Suc k), Phone = phone, Balance = 0\<rparr>) (enumerate 0 phones) \<and>
      nextAccountID (register_all phones empty_Service) = of_nat (length phones))"
proof (intro conjI impI)
  assume "phone \<in> Phone ` set (accounts s)"
  then show "RegisterAccount phone s = (Inl ErrPhoneRegistered, s)" by (rule RegisterAccount_fail)
next
  assume "phone \<notin> Phone ` set (accounts s)"
  then show "RegisterAccount phone s =
        (Inr (length (accounts s)),
         s\<lparr>nextAccountID := nextAccountID s + 1,
           accounts := accounts s @ [\<lparr>ID = nextAccountID s + 1, Phone = phone, Balance = 0\<rparr>]\<rparr>)"
    by (rule RegisterAccount_ok)
next
  assume d: "distinct phones"
  have e: "set phones \<inter> Phone ` set (accounts empty_Service) = {}" by (simp add: empty_Service_def)
  show "accounts (register_all phones empty_Service) =
        map (\<lambda>(k, phone). \<lparr>ID = of_nat (Suc k), Phone = phone, Balance = 0\<rparr>) (enumerate 0 phones)"
    using register_all_accounts [OF d e] by (simp add: empty_Service_def)
  show "nextAccountID (register_all phones empty_Service) = of_nat (length phones)"
    using register_all_accounts [OF d e] by (simp add: empty_Service_def)
qed

theorem RegisterAccount_sequential_witness:
  "RegisterAccount ''+992900000000''
     \<lparr>nextAccountID = 1, accounts = [\<lparr>ID = 1, Phone = ''+992900000000'', Balance = 7\<rparr>],
      payments = [], favorites = []\<rparr> =
     (Inl ErrPhoneRegistered,
      \<lparr>nextAccountID = 1, accounts = [\<lparr>ID = 1, Phone = ''+992900000000'', Balance = 7\<rparr>],
       payments = [], favorites = []\<rparr>) \<and>
   RegisterAccount ''+992900000001''
     \<lparr>nextAccountID = 1, accounts = [\<lparr>ID = 1, Phone = ''+992900000000'', Balance = 7\<rparr>],
      payments = [], favorites = []\<rparr> =
     (Inr 1,
      \<lparr>nextAccountID = 2,
       accounts = [\<lparr>ID = 1, Phone = ''+992900000000'', Balance = 7\<rparr>,
                   \<lparr>ID = 2, Phone = ''+992900000001'', Balance = 0\<rparr>],
       payments = [], favorites = []\<rparr>) \<and>
   accounts (register_all [''a'', ''b'', ''c''] empty_Service) =
     [\<lparr>ID = 1, Phone = ''a'', Balance = 0\<rparr>, \<lparr>ID = 2, Phone = ''b'', Balance = 0\<rparr>,
      \<lparr>ID = 3, Phone = ''c'', Balance = 0\<rparr>]"
  using RegisterAccount_sequential [of "''+992900000000''"
      "\<lparr>nextAccountID = 1, accounts = [\<lparr>ID = 1, Phone = ''+992900000000'', Balance = 7\<rparr>],
        payments = [], favorites = []\<rparr>" "[''a'', ''b'', ''c'']"]
    RegisterAccount_sequential [of "''+992900000001''"
      "\<lparr>nextAccountID = 1, accounts = [\<lparr>ID = 1, Phone = ''+992900000000'', Balance = 7\<rparr>],
        payments = [], favorites = []\<rparr>" "[]"]
  by (simp add: enumerate_eq_zip upt_rec)

text \<open>
  C8. \<open>AddAccountWithBalance(phone, balance)\<close> returns \<open>ErrCannotRegisterAccount\<close>,
  whatever the cause, when \<open>RegisterAccount\<close> fails, and then the service is as it was.
  It returns \<open>ErrCannotDepositAccount\<close>, whatever the cause, when the deposit that follows
  a successful registration fails, and then the account just registered is still the last
  of the collection: nothing is undone. A balance that is not positive on a fresh phone is
  such a case.
\<close>

theorem AddAccountWithBalance_masks_errors:
  "(fst (RegisterAccount phone s) = Inl e \<longrightarrow>
      AddAccountWithBalance phone balance s = (Inl ErrCannotRegisterAccount, s)) \<and>
   (RegisterAccount phone s = (Inr a, s1) \<and> fst (Deposit (ID (accounts s1 ! a)) balance s1) = Some e' \<longrightarrow>
      AddAccountWithBalance phone balance s = (Inl ErrCannotDepositAccount, s1) \<and>
      accounts s1 = accounts s @ [\<lparr>ID = nextAccountID s + 1, Phone = phone, Balance = 0\<rparr>]) \<and>
   (phone \<notin> Phone ` set (accounts s) \<and> balance \<le>s 0 \<longrightarrow>
      AddAccountWithBalance phone balance s =
        (Inl ErrCannotDepositAccount,
         s\<lparr>nextAccountID := nextAccountID s + 1,
           accounts := accounts s @ [\<lparr>ID = nextAccountID s + 1, Phone = phone, Balance = 0\<rparr>]\<rparr>))"
  using AddAccountWithBalance_register_fails [of phone s e balance]
    AddAccountWithBalance_deposit_fails [of phone s a s1 balance e']
    AddAccountWithBalance_nonpositive [of phone s balance]
  by blast

theorem AddAccountWithBalance_masks_errors_witness:
  "AddAccountWithBalance ''+992900000000'' 10
     \<lparr>nextAccountID = 1, accounts = [\<lparr>ID = 1, Phone = ''+992900000000'', Balance = 7\<rparr>],
      payments = [], favorites = []\<rparr> =
     (Inl ErrCannotRegisterAccount,
      \<lparr>nextAccountID = 1, accounts = [\<lparr>ID = 1, Phone = ''+992900000000'', Balance = 7\<rparr>],
       payments = [], favorites = []\<rparr>) \<and>
   AddAccountWithBalance ''+992900000001'' 0 empty_Service =
     (Inl ErrCannotDepositAccount,
      \<lparr>nextAccountID = 1, accounts = [\<lparr>ID = 1, Phone = ''+992900000001'', Balance = 0\<rparr>],
       payments = [], favorites = []\<rparr>)"
  using AddAccountWithBalance_masks_errors [of "''+992900000000''"
      "\<lparr>nextAccountID = 1, accounts = [\<lparr>ID = 1, Phone = ''+992900000000'', Balance = 7\<rparr>],
        payments = [], favorites = []\<rparr>" ErrPhoneRegistered 10]
    AddAccountWithBalance_masks_errors [of "''+992900000001''" empty_Service _ 0 0
      "\<lparr>nextAccountID = 1, accounts = [\<lparr>ID = 1, Phone = ''+992900000001'', Balance = 0\<rparr>],
        payments = [], favorites = []\<rparr>" ErrAmountMustBePositive]
  by (simp add: empty_Service_def RegisterAccount_def Deposit_def word_sle_eq)

text \<open>
  C1, as stated, fails: after importing the file \<open>1;x;-5|\<close> the account 1 has the
  balance -5, the amount 0 is greater than that balance, and \<open>Pay\<close> returns
  \<open>ErrAmountMustBePositive\<close>, not \<open>ErrNotEnoughBalance\<close>: the check of the amount
  comes first.
\<close>

theorem Pay_NotEnoughBalance_counterexample:
  "ImportFromFile ''accounts.txt'' empty_Service [''accounts.txt'' \<mapsto> ''1;x;-5|''] =
     (Return None,
      \<lparr>nextAccountID = 0, accounts = [\<lparr>ID = 1, Phone = ''x'', Balance = - 5\<rparr>],
       payments = [], favorites = []\<rparr>) \<and>
   (- 5 :: Money) <s 0 \<and>
   Pay 1 0 ''food'' ''u1''
     \<lparr>nextAccountID = 0, accounts = [\<lparr>ID = 1, Phone = ''x'', Balance = - 5\<rparr>],
      payments = [], favorites = []\<rparr> =
     (Inl ErrAmountMustBePositive,
      \<lparr>nextAccountID = 0, accounts = [\<lparr>ID = 1, Phone = ''x'', Balance = - 5\<rparr>],
       payments = [], favorites = []\<rparr>) \<and>
   Inl ErrAmountMustBePositive \<noteq> (Inl ErrNotEnoughBalance :: error + nat)"
  by (simp add: ImportFromFile_def ImportFromFile_read.simps empty_Service_def ParseInt_def ParseUint_def
      word_le_nat_alt word_less_nat_alt Pay_def word_sle_eq word_sless_alt)

text \<open>
  C1, amended. For every service state: \<open>Pay(accountID, amount, category)\<close> with a
  positive amount that is greater than the balance of the account \<open>FindAccountByID\<close>
  gives for \<open>accountID\<close> returns \<open>ErrNotEnoughBalance\<close> and leaves the whole service,
  balances and payments, as it was; with an amount that is not positive it returns
  \<open>ErrAmountMustBePositive\<close> and leaves the service as it was; and no call of \<open>Pay\<close>
  changes the number of accounts or makes negative a balance that was not negative.
\<close>

theorem Pay_never_overdraws:
  "(\<not> amount \<le>s 0 \<and> FindAccountByID accountID s = Inr i \<and> Balance (accounts s ! i) <s amount \<longrightarrow>
      Pay accountID amount category uuid s = (Inl ErrNotEnoughBalance, s)) \<and>
   (amount \<le>s 0 \<longrightarrow> Pay accountID amount category uuid s = (Inl ErrAmountMustBePositive, s)) \<and>
   length (accounts (snd (Pay accountID amount category uuid s))) = length (accounts s) \<and>
   (k < length (accounts s) \<and> 0 \<le>s Balance (accounts s ! k) \<longrightarrow>
      0 \<le>s Balance (accounts (snd (Pay accountID amount category uuid s)) ! k))"
  using Pay_not_enough [of amount accountID s i category uuid]
    Pay_nonpositive [of amount accountID category uuid s]
    Pay_length [of accountID amount category uuid s]
    Pay_keeps_nonneg [of s k accountID amount category uuid]
  by blast

theorem Pay_never_overdraws_witness:
  "Pay 1 900 ''food'' ''u1''
     \<lparr>nextAccountID = 1, accounts = [\<lparr>ID = 1, Phone = ''+992900000000'', Balance = 800\<rparr>],
      payments = [], favorites = []\<rparr> =
     (Inl ErrNotEnoughBalance,
      \<lparr>nextAccountID = 1, accounts = [\<lparr>ID = 1, Phone = ''+992900000000'', Balance = 800\<rparr>],
       payments = [], favorites = []\<rparr>) \<and>
   Pay 1 0 ''food'' ''u1''
     \<lparr>nextAccountID = 1, accounts = [\<lparr>ID = 1, Phone = ''+992900000000'', Balance = 800\<rparr>],
      payments = [], favorites = []\<rparr> =
     (Inl ErrAmountMustBePositive,
      \<lparr>nextAccountID = 1, accounts = [\<lparr>ID = 1, Phone = ''+992900000000'', Balance = 800\<rparr>],
       payments = [], favorites = []\<rparr>) \<and>
   0 \<le>s Balance (accounts (snd (Pay 1 800 ''food'' ''u1''
     \<lparr>nextAccountID = 1, accounts = [\<lparr>ID = 1, Phone = ''+992900000000'', Balance = 800\<rparr>],
      payments = [], favorites = []\<rparr>)) ! 0)"
  using Pay_never_overdraws [of 0 1
      "\<lparr>nextAccountID = 1, accounts = [\<lparr>ID = 1, Phone = ''+992900000000'', Balance = 800\<rparr>],
        payments = [], favorites = []\<rparr>" 0 "''food''" "''u1''" 0]
    Pay_never_overdraws [of 900 1
      "\<lparr>nextAccountID = 1, accounts = [\<lparr>ID = 1, Phone = ''+992900000000'', Balance = 800\<rparr>],
        payments = [], favorites = []\<rparr>" 0 "''food''" "''u1''" 0]
    Pay_never_overdraws [of 800 1
      "\<lparr>nextAccountID = 1, accounts = [\<lparr>ID = 1, Phone = ''+992900000000'', Balance = 800\<rparr>],
        payments = [], favorites = []\<rparr>" 0 "''food''" "''u1''" 0]
  by (simp add: FindAccountByID_def word_sle_eq word_sless_alt)

text \<open>
  C2. In every state that contains a payment \<open>p\<close> and an account with the ID \<open>p\<close> names,
  payment identifiers being unique as \<open>uuid.New()\<close> draws them, \<open>Reject(p.ID)\<close> succeeds,
  sets the status of \<open>p\<close> to \<open>PaymentStatusFail\<close> and adds the amount of \<open>p\<close> to the
  balance of the owning account of \<open>p\<close>, in \<open>int64\<close> arithmetic and whatever the status of
  \<open>p\<close> was before. The owning account is the one \<open>p.AccountID\<close> denotes: the first
  account of the collection with that ID, which is the only one when account IDs are
  unique. A second \<open>Reject\<close> of the same payment succeeds too and leaves that balance at
  the first one plus twice the amount.
\<close>

theorem Reject_refunds:
  assumes p: "p \<in> set (payments s)"
    and uuids: "distinct (map PaymentID (payments s))"
    and a: "a \<in> set (accounts s)"
    and owner: "ID a = AccountID p"
  shows "fst (Reject (PaymentID p) s) = None \<and>
         (\<exists>j i. j < length (payments s) \<and> payments s ! j = p \<and>
                i < length (accounts s) \<and> ID (accounts s ! i) = AccountID p \<and>
                (\<forall>k<i. ID (accounts s ! k) \<noteq> AccountID p) \<and>
                (distinct (map ID (accounts s)) \<longrightarrow> accounts s ! i = a) \<and>
                Status (payments (snd (Reject (PaymentID p) s)) ! j) = PaymentStatusFail \<and>
                Balance (accounts (snd (Reject (PaymentID p) s)) ! i) =
                  Balance (accounts s ! i) + Amount p \<and>
                Balance (accounts (snd (Reject (PaymentID p) (snd (Reject (PaymentID p) s)))) ! i) =
                  Balance (accounts s ! i) + 2 * Amount p \<and>
                Reject (PaymentID p) s =
                  (None,
                   s\<lparr>payments := (payments s)[j := p\<lparr>Status := PaymentStatusFail\<rparr>],
                     accounts := (accounts s)[i := (accounts s ! i)
                       \<lparr>Balance := Balance (accounts s ! i) + Amount p\<rparr>]\<rparr>) \<and>
                Reject (PaymentID p) (snd (Reject (PaymentID p) s)) =
                  (None,
                   s\<lparr>payments := (payments s)[j := p\<lparr>Status := PaymentStatusFail\<rparr>],
                     accounts := (accounts s)[i := (accounts s ! i)
                       \<lparr>Balance := Balance (accounts s ! i) + 2 * Amount p\<rparr>]\<rparr>))"
proof -
  obtain j where j: "j < length (payments s)" and pj: "payments s ! j = p"
    using p by (auto simp: in_set_conv_nth)
  have fj: "payment_index (PaymentID p) (payments s) = Some j"
    using payment_index_distinct [OF uuids j] pj by simp
  obtain i where fi: "account_index (AccountID p) (accounts s) = Some i"
    using account_index_complete [OF a] owner by auto
  have i: "i < length (accounts s)" and idi: "ID (accounts s ! i) = AccountID p"
    using account_index_Some [OF fi] by simp_all
  have first: "\<forall>k<i. ID (accounts s ! k) \<noteq> AccountID p"
    by (rule account_index_first [OF fi])
  have only: "distinct (map ID (accounts s)) \<longrightarrow> accounts s ! i = a"
  proof
    assume d: "distinct (map ID (accounts s))"
    obtain i' where i': "i' < length (accounts s)" and ai': "accounts s ! i' = a"
      using a by (auto simp: in_set_conv_nth)
    have "account_index (ID (accounts s ! i')) (accounts s) = Some i'"
      by (rule account_index_distinct [OF d i'])
    then have "i' = i" using fi ai' owner by simp
    then show "accounts s ! i = a" using ai' by simp
  qed
  have P: "FindPaymentByID (PaymentID p) s = Inr j"
    by (simp add: FindPaymentByID_def fj)
  have A: "FindAccountByID (AccountID (payments s ! j)) s = Inr i"
    by (simp add: FindAccountByID_def pj fi)
  have r1: "Reject (PaymentID p) s =
      (None,
       s\<lparr>payments := (payments s)[j := p\<lparr>Status := PaymentStatusFail\<rparr>],
         accounts := (accounts s)[i := (accounts s ! i)
           \<lparr>Balance := Balance (accounts s ! i) + Amount p\<rparr>]\<rparr>)"
    using Reject_ok [OF P A] by (simp add: pj)
  have r2: "Reject (PaymentID p) (snd (Reject (PaymentID p) s)) =
      (None,
       s\<lparr>payments := (payments s)[j := p\<lparr>Status := PaymentStatusFail\<rparr>],
         accounts := (accounts s)[i := (accounts s ! i)
           \<lparr>Balance := Balance (accounts s ! i) + 2 * Amount p\<rparr>]\<rparr>)"
    using Reject_twice [OF P A] by (simp add: pj)
  have ok: "fst (Reject (PaymentID p) s) = None" by (simp only: r1 fst_conv)
  have st: "Status (payments (snd (Reject (PaymentID p) s)) ! j) = PaymentStatusFail"
    using j by (simp add: r1)
  have b1: "Balance (accounts (snd (Reject (PaymentID p) s)) ! i) =
      Balance (accounts s ! i) + Amount p"
    using i by (simp add: r1)
  have b2: "Balance (accounts (snd (Reject (PaymentID p) (snd (Reject (PaymentID p) s)))) ! i) =
      Balance (accounts s ! i) + 2 * Amount p"
    using i by (simp only: r2) simp
  from ok j pj i idi first only st b1 b2 r1 r2 show ?thesis by blast
qed

theorem Reject_refunds_witness:
  "Reject ''u2''
     \<lparr>nextAccountID = 2,
      accounts = [\<lparr>ID = 1, Phone = ''+992900000000'', Balance = 50\<rparr>,
                  \<lparr>ID = 2, Phone = ''+992900000001'', Balance = 800\<rparr>],
      payments = [\<lparr>PaymentID = ''u1'', AccountID = 1, Amount = 30, Category = ''taxi'',
                   Status = PaymentStatusInProgress\<rparr>,
                  \<lparr>PaymentID = ''u2'', AccountID = 2, Amount = 200, Category = ''food'',
                   Status = PaymentStatusInProgress\<rparr>],
      favorites = []\<rparr> =
     (None,
      \<lparr>nextAccountID = 2,
       accounts = [\<lparr>ID = 1, Phone = ''+992900000000'', Balance = 50\<rparr>,
                   \<lparr>ID = 2, Phone = ''+992900000001'', Balance = 1000\<rparr>],
       payments = [\<lparr>PaymentID = ''u1'', AccountID = 1, Amount = 30, Category = ''taxi'',
                    Status = PaymentStatusInProgress\<rparr>,
                   \<lparr>PaymentID = ''u2'', AccountID = 2, Amount = 200, Category = ''food'',
                    Status = PaymentStatusFail\<rparr>],
       favorites = []\<rparr>) \<and>
   Reject ''u2''
     \<lparr>nextAccountID = 2,
      accounts = [\<lparr>ID = 1, Phone = ''+992900000000'', Balance = 50\<rparr>,
                  \<lparr>ID = 2, Phone = ''+992900000001'', Balance = 1000\<rparr>],
      payments = [\<lparr>PaymentID = ''u1'', AccountID = 1, Amount = 30, Category = ''taxi'',
                   Status = PaymentStatusInProgress\<rparr>,
                  \<lparr>PaymentID = ''u2'', AccountID = 2, Amount = 200, Category = ''food'',
                   Status = PaymentStatusFail\<rparr>],
      favorites = []\<rparr> =
     (None,
      \<lparr>nextAccountID = 2,
       accounts = [\<lparr>ID = 1, Phone = ''+992900000000'', Balance = 50\<rparr>,
                   \<lparr>ID = 2, Phone = ''+992900000001'', Balance = 1200\<rparr>],
       payments = [\<lparr>PaymentID = ''u1'', AccountID = 1, Amount = 30, Category = ''taxi'',
                    Status = PaymentStatusInProgress\<rparr>,
                   \<lparr>PaymentID = ''u2'', AccountID = 2, Amount = 200, Category = ''food'',
                    Status = PaymentStatusFail\<rparr>],
       favorites = []\<rparr>)"
proof -
  let ?p = "\<lparr>PaymentID = ''u2'', AccountID = 2, Amount = 200, Category = ''food'',
             Status = PaymentStatusInProgress\<rparr>"
  let ?a = "\<lparr>ID = 2, Phone = ''+992900000001'', Balance = 800\<rparr>"
  let ?s = "\<lparr>nextAccountID = 2,
      accounts = [\<lparr>ID = 1, Phone = ''+992900000000'', Balance = 50\<rparr>, ?a],
      payments = [\<lparr>PaymentID = ''u1'', AccountID = 1, Amount = 30, Category = ''taxi'',
                   Status = PaymentStatusInProgress\<rparr>, ?p],
      favorites = []\<rparr>"
  have h1: "?p \<in> set (payments ?s)" by simp
  have h2: "distinct (map PaymentID (payments ?s))" by simp
  have h3: "?a \<in> set (accounts ?s)" by simp
  have h4: "ID ?a = AccountID ?p" by simp
  from Reject_refunds [OF h1 h2 h3 h4]
  obtain j i where j: "j < length (payments ?s)" and pj: "payments ?s ! j = ?p"
    and i: "i < length (accounts ?s)" and ai: "ID (accounts ?s ! i) = AccountID ?p"
    and r1: "Reject (PaymentID ?p) ?s =
       (None, ?s\<lparr>payments := (payments ?s)[j := ?p\<lparr>Status := PaymentStatusFail\<rparr>],
                 accounts := (accounts ?s)[i := (accounts ?s ! i)
                   \<lparr>Balance := Balance (accounts ?s ! i) + Amount ?p\<rparr>]\<rparr>)"
    and r2: "Reject (PaymentID ?p) (snd (Reject (PaymentID ?p) ?s)) =
       (None, ?s\<lparr>payments := (payments ?s)[j := ?p\<lparr>Status := PaymentStatusFail\<rparr>],
                 accounts := (accounts ?s)[i := (accounts ?s ! i)
                   \<lparr>Balance := Balance (accounts ?s ! i) + 2 * Amount ?p\<rparr>]\<rparr>)"
    by blast
  have j1: "j = 1" using j pj by (cases j) simp_all
  have i1: "i = 1" using i ai by (cases i) simp_all
  have first: "Reject ''u2'' ?s =
     (None,
      \<lparr>nextAccountID = 2,
       accounts = [\<lparr>ID = 1, Phone = ''+992900000000'', Balance = 50\<rparr>,
                   \<lparr>ID = 2, Phone = ''+992900000001'', Balance = 1000\<rparr>],
       payments = [\<lparr>PaymentID = ''u1'', AccountID = 1, Amount = 30, Category = ''taxi'',
                    Status = PaymentStatusInProgress\<rparr>,
                   \<lparr>PaymentID = ''u2'', AccountID = 2, Amount = 200, Category = ''food'',
                    Status = PaymentStatusFail\<rparr>],
       favorites = []\<rparr>)"
    using r1 by (simp add: j1 i1)
  have second: "Reject ''u2'' (snd (Reject ''u2'' ?s)) =
     (None,
      \<lparr>nextAccountID = 2,
       accounts = [\<lparr>ID = 1, Phone = ''+992900000000'', Balance = 50\<rparr>,
                   \<lparr>ID = 2, Phone = ''+992900000001'', Balance = 1200\<rparr>],
       payments = [\<lparr>PaymentID = ''u1'', AccountID = 1, Amount = 30, Category = ''taxi'',
                    Status = PaymentStatusInProgress\<rparr>,
                   \<lparr>PaymentID = ''u2'', AccountID = 2, Amount = 200, Category = ''food'',
                    Status = PaymentStatusFail\<rparr>],
       favorites = []\<rparr>)"
    using r2 by (simp add: j1 i1)
  from first second show ?thesis by (simp only: snd_conv)
qed

text \<open>
  C3. For every accounts collection whose phones contain neither \<open>;\<close> nor \<open>|\<close>,
  with file I/O successful (\<open>ExportToFile\<close> returns \<open>nil\<close>), \<open>ExportToFile\<close> to a path
  followed by \<open>ImportFromFile\<close> of that path into the empty service returns \<open>nil\<close> and
  gives a service whose accounts are exactly the original ones, field for field and in the
  same order.
\<close>

theorem Export_Import_roundtrip:
  assumes phones: "\<forall>a \<in> set (accounts s). CHR '';'' \<notin> set (Phone a) \<and> CHR ''|'' \<notin> set (Phone a)"
    and io: "fst (ExportToFile path created room s fs) = None"
  shows "ImportFromFile path empty_Service (snd (ExportToFile path created room s fs)) =
           (Return None, empty_Service\<lparr>accounts := accounts s\<rparr>)"
proof -
  let ?fs = "snd (ExportToFile path created room s fs)"
  have f: "?fs path = Some (concat (map record_of_account (accounts s)))"
    by (simp add: ExportToFile_eq [OF io])
  have bar: "\<forall>a \<in> set (accounts s). CHR ''|'' \<notin> set (Phone a)" using phones by simp
  have "map (\<lambda>a. account_of_line (butlast (record_of_account a))) (accounts s) = accounts s"
    using phones by (simp add: account_of_record_body map_idI)
  then show ?thesis
    by (simp add: Import_exported [where fs = "?fs" and path = path, OF f bar] empty_Service_def)
qed

theorem Export_Import_roundtrip_witness:
  "ImportFromFile ''accounts.txt'' empty_Service
     (snd (ExportToFile ''accounts.txt'' True 64
        \<lparr>nextAccountID = 2,
         accounts = [\<lparr>ID = 1, Phone = ''+992000000001'', Balance = 500\<rparr>,
                     \<lparr>ID = 2, Phone = ''+992000000002'', Balance = 0\<rparr>],
         payments = [], favorites = []\<rparr> Map.empty)) =
     (Return None,
      \<lparr>nextAccountID = 0,
       accounts = [\<lparr>ID = 1, Phone = ''+992000000001'', Balance = 500\<rparr>,
                   \<lparr>ID = 2, Phone = ''+992000000002'', Balance = 0\<rparr>],
       payments = [], favorites = []\<rparr>)"
  using Export_Import_roundtrip [of
      "\<lparr>nextAccountID = 2,
         accounts = [\<lparr>ID = 1, Phone = ''+992000000001'', Balance = 500\<rparr>,
                     \<lparr>ID = 2, Phone = ''+992000000002'', Balance = 0\<rparr>],
         payments = [], favorites = []\<rparr>" "''accounts.txt''" True 64 Map.empty]
  by (simp add: empty_Service_def ExportToFile_nil_iff record_of_account_def FormatInt_def
      formatBits.simps word_sless_alt digit_chars)

text \<open>
  C4, as stated, fails twice. The claim asks for no separator between the last record and
  the end of the file, and the file written for one account is \<open>1;a;0|\<close>: its last
  byte is the separator. And the claim holds of every call, while a call whose
  \<open>os.Create\<close> fails returns the error and writes no file, and a call whose
  \<open>file.Write\<close> falls short returns the error and leaves less than the record in the file.
\<close>

theorem ExportToFile_bytes_counterexample:
  "ExportToFile ''accounts.txt'' True 64
     \<lparr>nextAccountID = 1, accounts = [\<lparr>ID = 1, Phone = ''a'', Balance = 0\<rparr>],
      payments = [], favorites = []\<rparr> Map.empty =
     (None, [''accounts.txt'' \<mapsto> ''1;a;0|'']) \<and>
   last ''1;a;0|'' = CHR ''|'' \<and>
   ExportToFile ''nodir/accounts.txt'' False 64
     \<lparr>nextAccountID = 1, accounts = [\<lparr>ID = 1, Phone = ''a'', Balance = 0\<rparr>],
      payments = [], favorites = []\<rparr> Map.empty =
     (Some PathError, Map.empty) \<and>
   ExportToFile ''accounts.txt'' True 4
     \<lparr>nextAccountID = 1, accounts = [\<lparr>ID = 1, Phone = ''a'', Balance = 0\<rparr>],
      payments = [], favorites = []\<rparr> Map.empty =
     (Some WriteError, [''accounts.txt'' \<mapsto> ''1;a;''])"
  by (simp add: ExportToFile_def FormatInt_def formatBits.simps word_sless_alt digit_chars)

text \<open>
  C4, amended. For every accounts collection, \<open>ExportToFile\<close> returns \<open>nil\<close> exactly
  when \<open>os.Create\<close> and every \<open>file.Write\<close> succeed, and then the file at the path holds
  the concatenation, in collection order, of \<open>ID;Phone;Balance\<close> followed by the
  separator \<open>|\<close> for each account, the last one too: a file written for at least one
  account ends with \<open>|\<close>, and nothing follows it.
\<close>

theorem ExportToFile_bytes:
  "(fst (ExportToFile path created room s fs) = None \<longleftrightarrow>
      created \<and>
      length (concat (map (\<lambda>account. FormatInt (ID account) @ '';'' @ Phone account @ '';'' @
                                      FormatInt (Balance account) @ ''|'') (accounts s))) \<le> room) \<and>
   (fst (ExportToFile path created room s fs) = None \<longrightarrow>
      snd (ExportToFile path created room s fs) =
        fs(path \<mapsto> concat (map (\<lambda>account. FormatInt (ID account) @ '';'' @ Phone account @ '';'' @
                                         FormatInt (Balance account) @ ''|'') (accounts s)))) \<and>
   (accounts s \<noteq> [] \<longrightarrow>
      last (concat (map (\<lambda>account. FormatInt (ID account) @ '';'' @ Phone account @ '';'' @
                                    FormatInt (Balance account) @ ''|'') (accounts s))) = CHR ''|'')"
proof -
  have r: "(\<lambda>account. FormatInt (ID account) @ '';'' @ Phone account @ '';'' @
                       FormatInt (Balance account) @ ''|'') = record_of_account"
    by (rule ext) (simp add: record_of_account_def)
  have l: "accounts s \<noteq> [] \<longrightarrow> last (concat (map record_of_account (accounts s))) = CHR ''|''"
  proof
    assume "accounts s \<noteq> []"
    then obtain front a where "accounts s = front @ [a]"
      by (metis append_butlast_last_id)
    then show "last (concat (map record_of_account (accounts s))) = CHR ''|''"
      by (simp add: record_of_account_def)
  qed
  have e: "fst (ExportToFile path created room s fs) = None \<longrightarrow>
      snd (ExportToFile path created room s fs) =
        fs(path \<mapsto> concat (map record_of_account (accounts s)))"
  proof
    assume "fst (ExportToFile path created room s fs) = None"
    then have "ExportToFile path created room s fs =
        (None, fs(path \<mapsto> concat (map record_of_account (accounts s))))"
      by (rule ExportToFile_eq)
    then show "snd (ExportToFile path created room s fs) =
        fs(path \<mapsto> concat (map record_of_account (accounts s)))"
      by simp
  qed
  show ?thesis
    using ExportToFile_nil_iff [of path created room s fs] e l by (simp only: r)
qed

theorem ExportToFile_bytes_witness:
  "ExportToFile ''accounts.txt'' True 64
     \<lparr>nextAccountID = 2,
      accounts = [\<lparr>ID = 1, Phone = ''+992000000001'', Balance = 500\<rparr>,
                  \<lparr>ID = 2, Phone = ''+992000000002'', Balance = - 7\<rparr>],
      payments = [], favorites = []\<rparr> [''accounts.txt'' \<mapsto> ''old''] =
     (None, [''accounts.txt'' \<mapsto> ''1;+992000000001;500|2;+992000000002;-7|'']) \<and>
   last ''1;+992000000001;500|2;+992000000002;-7|'' = CHR ''|''"
  using ExportToFile_bytes [of "''accounts.txt''" True 64
      "\<lparr>nextAccountID = 2,
        accounts = [\<lparr>ID = 1, Phone = ''+992000000001'', Balance = 500\<rparr>,
                    \<lparr>ID = 2, Phone = ''+992000000002'', Balance = - 7\<rparr>],
        payments = [], favorites = []\<rparr>" "[''accounts.txt'' \<mapsto> ''old'']"]
  by (simp add: prod_eq_iff FormatInt_def formatBits.simps word_sless_alt digit_chars)

text \<open>
  C6, as stated, fails: the file \<open>x|1;b;2|\<close> has the non-empty records \<open>x\<close> and
  \<open>1;b;2\<close> before its first empty one, and \<open>ImportFromFile\<close> appends no account for
  either: the record \<open>x\<close> has no third field and \<open>item[2]\<close> panics.
\<close>

theorem ImportFromFile_additive_counterexample:
  "Split ''x|1;b;2|'' CHR ''|'' = [''x'', ''1;b;2'', ''''] \<and>
   ImportFromFile ''accounts.txt'' empty_Service [''accounts.txt'' \<mapsto> ''x|1;b;2|''] =
     (Panic, \<lparr>nextAccountID = 0, accounts = [], payments = [], favorites = []\<rparr>)"
  by (simp add: ImportFromFile_def ImportFromFile_read.simps empty_Service_def)

text \<open>
  C6, amended. \<open>ImportFromFile\<close> is additive: for every service and every file system,
  the accounts that were there are still the first accounts of the collection, unchanged
  and in place, and counter, payments and favorites are as before. When the file opens and
  every record before the first empty one has at least three fields, one account is
  appended per such record, in order, with the ID parsed from field 0, the phone taken
  from field 1 and the balance parsed from field 2, whatever phones and IDs are there
  already, and \<open>nil\<close> is returned; no record after the first empty one is imported.
\<close>

theorem ImportFromFile_additive:
  "take (length (accounts s)) (accounts (snd (ImportFromFile path s fs))) = accounts s \<and>
   nextAccountID (snd (ImportFromFile path s fs)) = nextAccountID s \<and>
   payments (snd (ImportFromFile path s fs)) = payments s \<and>
   favorites (snd (ImportFromFile path s fs)) = favorites s \<and>
   (fs path = Some content \<and>
    (\<forall>line \<in> set (takeWhile (\<lambda>l. l \<noteq> []) (Split content CHR ''|'')). 3 \<le> length (Split line CHR '';'')) \<longrightarrow>
      ImportFromFile path s fs =
        (Return None,
         s\<lparr>accounts := accounts s @
              map (\<lambda>line. \<lparr>ID = fst (ParseInt (Split line CHR '';'' ! 0)),
                            Phone = Split line CHR '';'' ! 1,
                            Balance = fst (ParseInt (Split line CHR '';'' ! 2))\<rparr>)
                (takeWhile (\<lambda>l. l \<noteq> []) (Split content CHR ''|''))\<rparr>))"
proof -
  have a: "account_of_line = (\<lambda>line. \<lparr>ID = fst (ParseInt (Split line CHR '';'' ! 0)),
                            Phone = Split line CHR '';'' ! 1,
                            Balance = fst (ParseInt (Split line CHR '';'' ! 2))\<rparr>)"
    by (rule ext) (simp add: account_of_line_def Let_def)
  show ?thesis
    using ImportFromFile_keeps [of s path fs]
      ImportFromFile_wellformed [of fs path content s]
    by (simp only: a) blast
qed

theorem ImportFromFile_additive_witness:
  "ImportFromFile ''accounts.txt''
     \<lparr>nextAccountID = 1, accounts = [\<lparr>ID = 1, Phone = ''a'', Balance = 7\<rparr>],
      payments = [], favorites = []\<rparr>
     [''accounts.txt'' \<mapsto> ''1;a;5|1;a;x||3;c;9|''] =
     (Return None,
      \<lparr>nextAccountID = 1,
       accounts = [\<lparr>ID = 1, Phone = ''a'', Balance = 7\<rparr>, \<lparr>ID = 1, Phone = ''a'', Balance = 5\<rparr>,
                   \<lparr>ID = 1, Phone = ''a'', Balance = 0\<rparr>],
       payments = [], favorites = []\<rparr>)"
  using ImportFromFile_additive [of
      "\<lparr>nextAccountID = 1, accounts = [\<lparr>ID = 1, Phone = ''a'', Balance = 7\<rparr>],
        payments = [], favorites = []\<rparr>" "''accounts.txt''"
      "[''accounts.txt'' \<mapsto> ''1;a;5|1;a;x||3;c;9|'']" "''1;a;5|1;a;x||3;c;9|''"]
  by (simp add: ParseInt_def ParseUint_def word_le_nat_alt word_less_nat_alt)

text \<open>
  C9, as stated, fails: the phone \<open>|\<close> can be registered, \<open>ExportToFile\<close> then writes
  \<open>1;|;0|\<close>, which ends with the delimiter, and \<open>ImportFromFile\<close> of that file panics
  instead of returning.
\<close>

theorem ImportFromFile_nil_counterexample:
  "RegisterAccount ''|'' empty_Service =
     (Inr 0, \<lparr>nextAccountID = 1, accounts = [\<lparr>ID = 1, Phone = ''|'', Balance = 0\<rparr>],
              payments = [], favorites = []\<rparr>) \<and>
   ExportToFile ''accounts.txt'' True 64
     \<lparr>nextAccountID = 1, accounts = [\<lparr>ID = 1, Phone = ''|'', Balance = 0\<rparr>],
      payments = [], favorites = []\<rparr> Map.empty =
     (None, [''accounts.txt'' \<mapsto> ''1;|;0|'']) \<and>
   ImportFromFile ''accounts.txt'' empty_Service [''accounts.txt'' \<mapsto> ''1;|;0|''] =
     (Panic, \<lparr>nextAccountID = 0, accounts = [], payments = [], favorites = []\<rparr>) \<and>
   Panic \<noteq> Return None"
  by (simp add: RegisterAccount_def empty_Service_def ExportToFile_def FormatInt_def formatBits.simps
      word_sless_alt digit_chars ImportFromFile_def ImportFromFile_read.simps)

text \<open>
  C9, amended. Once the file opens, \<open>ImportFromFile\<close> returns \<open>nil\<close> whenever every
  record before the first empty one has at least three fields; this holds for every
  file \<open>ExportToFile\<close> has written in full (its writes succeeded and it returned \<open>nil\<close>)
  over accounts whose phones contain no \<open>|\<close>. And whenever it
  returns at all after the file opened, what it returns is \<open>nil\<close>: the \<open>err\<close> of the
  successful \<open>os.Open\<close>.
\<close>

theorem ImportFromFile_returns_nil:
  "(fs path = Some content \<and>
    (\<forall>line \<in> set (takeWhile (\<lambda>l. l \<noteq> []) (Split content CHR ''|'')). 3 \<le> length (Split line CHR '';'')) \<longrightarrow>
      fst (ImportFromFile path s fs) = Return None) \<and>
   ((\<forall>a \<in> set (accounts s0). CHR ''|'' \<notin> set (Phone a)) \<and>
    fst (ExportToFile path created room s0 fs) = None \<longrightarrow>
      fst (ImportFromFile path s (snd (ExportToFile path created room s0 fs))) = Return None) \<and>
   (fs path = Some content \<longrightarrow>
      fst (ImportFromFile path s fs) = Return None \<or> fst (ImportFromFile path s fs) = Panic)"
proof (intro conjI impI)
  assume "fs path = Some content \<and>
    (\<forall>line \<in> set (takeWhile (\<lambda>l. l \<noteq> []) (Split content CHR ''|'')). 3 \<le> length (Split line CHR '';''))"
  then show "fst (ImportFromFile path s fs) = Return None"
    using ImportFromFile_wellformed [of fs path content s] by simp
next
  assume h: "(\<forall>a \<in> set (accounts s0). CHR ''|'' \<notin> set (Phone a)) \<and>
    fst (ExportToFile path created room s0 fs) = None"
  then have bar: "\<forall>a \<in> set (accounts s0). CHR ''|'' \<notin> set (Phone a)"
    and io: "fst (ExportToFile path created room s0 fs) = None" by simp_all
  let ?fs = "snd (ExportToFile path created room s0 fs)"
  have f: "?fs path = Some (concat (map record_of_account (accounts s0)))"
    by (simp add: ExportToFile_eq [OF io])
  show "fst (ImportFromFile path s ?fs) = Return None"
    by (simp add: Import_exported [where fs = "?fs" and path = path, OF f bar])
next
  assume "fs path = Some content"
  then show "fst (ImportFromFile path s fs) = Return None \<or> fst (ImportFromFile path s fs) = Panic"
    by (rule ImportFromFile_outcome)
qed

theorem ImportFromFile_returns_nil_witness:
  "fst (ImportFromFile ''accounts.txt'' empty_Service [''accounts.txt'' \<mapsto> ''1;a;5|2;b;c;6|'']) = Return None \<and>
   fst (ImportFromFile ''accounts.txt'' empty_Service
     (snd (ExportToFile ''accounts.txt'' True 64
        \<lparr>nextAccountID = 1, accounts = [\<lparr>ID = 1, Phone = ''a;b'', Balance = 7\<rparr>],
         payments = [], favorites = []\<rparr> Map.empty))) = Return None"
  using ImportFromFile_returns_nil [where fs = "[''accounts.txt'' \<mapsto> ''1;a;5|2;b;c;6|'']"
      and path = "''accounts.txt''" and content = "''1;a;5|2;b;c;6|''" and s = empty_Service
      and ?s0.0 = empty_Service and created = True and room = 64]
    ImportFromFile_returns_nil [where fs = Map.empty and path = "''accounts.txt''" and content = "''''"
      and s = empty_Service
      and ?s0.0 = "\<lparr>nextAccountID = 1, accounts = [\<lparr>ID = 1, Phone = ''a;b'', Balance = 7\<rparr>],
         payments = [], favorites = []\<rparr>" and created = True and room = 64]
  by (simp add: ExportToFile_nil_iff record_of_account_def FormatInt_def
      formatBits.simps word_sless_alt digit_chars)




text \<open>
  C5, as stated, fails. From the empty service, \<open>ImportFromFile\<close> of the file
  \<open>1;x;-5|\<close> gives an account with the balance -5. And with no import at all:
  registering a phone, depositing 9223372036854775807 and depositing 1 more wraps the
  balance around to -9223372036854775808.
\<close>

theorem Balance_nonneg_counterexample:
  "fst (exec (OpImportFromFile ''accounts.txt'') (empty_Service, [''accounts.txt'' \<mapsto> ''1;x;-5|''])) =
     \<lparr>nextAccountID = 0, accounts = [\<lparr>ID = 1, Phone = ''x'', Balance = - 5\<rparr>],
      payments = [], favorites = []\<rparr> \<and>
   (- 5 :: Money) <s 0 \<and>
   fst (exec (OpDeposit 1 1) (exec (OpDeposit 1 9223372036854775807)
          (exec (OpRegisterAccount ''x'') (empty_Service, Map.empty)))) =
     \<lparr>nextAccountID = 1, accounts = [\<lparr>ID = 1, Phone = ''x'', Balance = - 9223372036854775808\<rparr>],
      payments = [], favorites = []\<rparr> \<and>
   (- 9223372036854775808 :: Money) <s 0"
  by (simp add: ImportFromFile_def ImportFromFile_read.simps empty_Service_def
      ParseInt_def ParseUint_def word_le_nat_alt word_less_nat_alt
      RegisterAccount_def Deposit_def word_sle_eq word_sless_alt)

text \<open>
  C5, amended. In every state reachable from the empty service by calls of the service
  operations in which no addition to a balance (by \<open>Deposit\<close>, \<open>Reject\<close> or
  \<open>AddAccountWithBalance\<close>) leaves the range of \<open>int64\<close>, and in which every file
  imported carries no negative balance in the records read from it, every account has a
  balance that is not negative.
\<close>

theorem Balance_nonneg_reachable:
  "reachable (s, fs) \<Longrightarrow> \<forall>account \<in> set (accounts s). 0 \<le>s Balance account"
  using reachable_balances_ok [of "(s, fs)"] by (simp add: balances_ok_def list_all_iff)

theorem Balance_nonneg_reachable_witness:
  "reachable
     (\<lparr>nextAccountID = 1, accounts = [\<lparr>ID = 1, Phone = ''+992900000000'', Balance = 1000\<rparr>],
       payments = [\<lparr>PaymentID = ''u1'', AccountID = 1, Amount = 200, Category = ''food'',
                    Status = PaymentStatusFail\<rparr>],
       favorites = []\<rparr>, Map.empty) \<and>
   (0 :: Money) \<le>s 1000"
proof -
  let ?w0 = "(empty_Service, Map.empty :: FileSystem)"
  let ?s1 = "\<lparr>nextAccountID = 1, accounts = [\<lparr>ID = 1, Phone = ''+992900000000'', Balance = 0\<rparr>],
       payments = [], favorites = []\<rparr>"
  let ?s2 = "\<lparr>nextAccountID = 1, accounts = [\<lparr>ID = 1, Phone = ''+992900000000'', Balance = 1000\<rparr>],
       payments = [], favorites = []\<rparr>"
  let ?s3 = "\<lparr>nextAccountID = 1, accounts = [\<lparr>ID = 1, Phone = ''+992900000000'', Balance = 800\<rparr>],
       payments = [\<lparr>PaymentID = ''u1'', AccountID = 1, Amount = 200, Category = ''food'',
                    Status = PaymentStatusInProgress\<rparr>],
       favorites = []\<rparr>"
  let ?s4 = "\<lparr>nextAccountID = 1, accounts = [\<lparr>ID = 1, Phone = ''+992900000000'', Balance = 1000\<rparr>],
       payments = [\<lparr>PaymentID = ''u1'', AccountID = 1, Amount = 200, Category = ''food'',
                    Status = PaymentStatusFail\<rparr>],
       favorites = []\<rparr>"
  have e1: "exec (OpRegisterAccount ''+992900000000'') ?w0 = (?s1, Map.empty)"
    by (simp add: RegisterAccount_def empty_Service_def)
  have e2: "exec (OpDeposit 1 1000) (?s1, Map.empty :: FileSystem) = (?s2, Map.empty)"
    by (simp add: Deposit_def word_sle_eq)
  have e3: "exec (OpPay 1 200 ''food'' ''u1'') (?s2, Map.empty :: FileSystem) = (?s3, Map.empty)"
    by (simp add: Pay_def FindAccountByID_def word_sle_eq word_sless_alt)
  have e4: "exec (OpReject ''u1'') (?s3, Map.empty :: FileSystem) = (?s4, Map.empty)"
    by (simp add: Reject_def FindPaymentByID_def FindAccountByID_def)
  have r0: "reachable ?w0" by (rule reachable.init)
  have "reachable (exec (OpRegisterAccount ''+992900000000'') ?w0)"
    using r0 by (rule reachable.step) simp
  then have r1: "reachable (?s1, Map.empty :: FileSystem)" by (simp only: e1)
  have "reachable (exec (OpDeposit 1 1000) (?s1, Map.empty :: FileSystem))"
    using r1 by (rule reachable.step) (simp add: deposit_fits_def add_fits_def)
  then have r2: "reachable (?s2, Map.empty :: FileSystem)" by (simp only: e2)
  have "reachable (exec (OpPay 1 200 ''food'' ''u1'') (?s2, Map.empty :: FileSystem))"
    using r2 by (rule reachable.step) simp
  then have r3: "reachable (?s3, Map.empty :: FileSystem)" by (simp only: e3)
  have "reachable (exec (OpReject ''u1'') (?s3, Map.empty :: FileSystem))"
    using r3 by (rule reachable.step) (simp add: add_fits_def)
  then have r4: "reachable (?s4, Map.empty :: FileSystem)" by (simp only: e4)
  show ?thesis using r4 Balance_nonneg_reachable [OF r4] by simp
qed

end
